theory Spec2Isabelle
  imports Main
begin

section \<open>Error values\<close>

text \<open>
  Go's \<^verbatim>\<open>error\<close> values that occur in \<^verbatim>\<open>batch.go\<close>. A handler may return any
  error; \<^verbatim>\<open>Execute\<close> itself builds three wrapped errors with \<^verbatim>\<open>fmt.Errorf\<close> and
  \<^verbatim>\<open>%w\<close>, each keeping the wrapped error as it is:
  \<^item> \<^verbatim>\<open>"rate limiter error at index %d: %w"\<close> (line 111),
  \<^item> \<^verbatim>\<open>"item %d failed: %w"\<close> (line 130),
  \<^item> \<^verbatim>\<open>"batch finished with %d error(s), first: %w"\<close> (line 147).
  \<open>Canceled\<close> and \<open>DeadlineExceeded\<close> are the two errors of package \<^verbatim>\<open>context\<close>;
  \<open>WaitExceedsBurst\<close> and \<open>WaitExceedsDeadline\<close> are the two errors that
  \<^verbatim>\<open>rate.Limiter.Wait\<close> makes itself.
\<close>

datatype error =
    ErrorString string
  | Canceled
  | DeadlineExceeded
  | WaitExceedsBurst int
  | WaitExceedsDeadline
  | RateLimiterError nat error
  | ItemFailed nat error
  | BatchFinished nat error


section \<open>Configuration of the batch executor\<close>

text \<open>
  \<^verbatim>\<open>rate.Limit\<close> is a float64; \<^verbatim>\<open>rate.Inf\<close> is its largest value, which no
  \<^verbatim>\<open>rate.Limit(rps)\<close> of an \<^verbatim>\<open>int\<close> equals. Only the comparison with \<^verbatim>\<open>rate.Inf\<close>
  is used by \<^verbatim>\<open>Execute\<close>.
\<close>

datatype rate_limit = Inf | Limit int

record BatchConfig =
  Concurrency :: int
  RateLimit :: rate_limit
  Burst :: int
  IgnoreError :: bool

type_synonym config_option = "BatchConfig \<Rightarrow> BatchConfig"

definition default_config :: BatchConfig where
  "default_config = \<lparr>Concurrency = 10, RateLimit = Inf, Burst = 1, IgnoreError = False\<rparr>"

definition NewBatchExecutor :: "config_option list \<Rightarrow> BatchConfig" where
  "NewBatchExecutor opts = fold (\<lambda>opt cfg. opt cfg) opts default_config"

definition WithConcurrency :: "int \<Rightarrow> config_option" where
  "WithConcurrency n = (\<lambda>c. if n > 0 then c\<lparr>Concurrency := n\<rparr> else c)"

definition WithRateLimit :: "int \<Rightarrow> config_option" where
  "WithRateLimit rps = (\<lambda>c. if rps > 0 then c\<lparr>RateLimit := Limit rps\<rparr> else c)"

definition WithBurst :: "int \<Rightarrow> config_option" where
  "WithBurst n = (\<lambda>c. if n > 0 then c\<lparr>Burst := n\<rparr> else c)"

definition WithIgnoreError :: "bool \<Rightarrow> config_option" where
  "WithIgnoreError ignore = (\<lambda>c. c\<lparr>IgnoreError := ignore\<rparr>)"

text \<open>The option functions that the package exports.\<close>

inductive_set package_options :: "config_option set" where
  concurrency: "WithConcurrency n \<in> package_options"
| rate_limit: "WithRateLimit rps \<in> package_options"
| burst: "WithBurst n \<in> package_options"
| ignore_error: "WithIgnoreError ignore \<in> package_options"


section \<open>Execute as an interleaving of the dispatching thread and its goroutines\<close>

text \<open>
  \<^verbatim>\<open>Execute\<close> runs its loop in the caller's thread and each handler call in a goroutine of
  an \<^verbatim>\<open>errgroup.Group\<close>. The model is a state machine: a state holds where the
  dispatching thread stands and what the threads share, and a schedule, a list of events,
  says which thread moves next and what the environment does. An event that is not
  enabled leaves the state as it is. The group and the limiter are those of
  \<^verbatim>\<open>golang.org/x/sync v0.5.0\<close> and \<^verbatim>\<open>golang.org/x/time v0.5.0\<close> (\<^verbatim>\<open>go.mod\<close>):
  \<^verbatim>\<open>g.Go\<close> blocks while the limit of running goroutines is reached, the first non-nil
  error is kept and cancels the group's context, \<^verbatim>\<open>g.Wait\<close> blocks until every goroutine
  has returned; \<^verbatim>\<open>limiter.Wait\<close> fails when its context is done before the token is
  granted. When the limiter grants a token depends on the clock and is left to the
  schedule.

  A handler is called with the group's context and the item. It returns \<^verbatim>\<open>nil\<close>, returns
  an error, or panics. The context is given as the value of \<^verbatim>\<open>grpCtx.Err()\<close> at the
  moment the call ends.
\<close>

datatype handler_result = Return "error option" | Panic string

type_synonym 'a handler = "error option \<Rightarrow> 'a \<Rightarrow> handler_result"

text \<open>
  Where the thread that runs \<^verbatim>\<open>Execute\<close> stands:
  \<^item> \<open>LoopHead i\<close>: at the top of the loop body for index \<open>i\<close> (line 104), or leaving the
    loop when \<open>i\<close> is the length of \<^verbatim>\<open>items\<close>;
  \<^item> \<open>LimiterWait i\<close>: calling \<^verbatim>\<open>limiter.Wait(grpCtx)\<close> (line 110);
  \<^item> \<open>LimiterSleep i\<close>: inside \<^verbatim>\<open>Wait\<close>, holding a reservation, in the select between
    the timer and \<^verbatim>\<open>grpCtx.Done()\<close>;
  \<^item> \<open>GroupGo i\<close>: calling \<^verbatim>\<open>g.Go\<close> (line 115), which blocks for a free slot;
  \<^item> \<open>GroupWait\<close>: in \<^verbatim>\<open>g.Wait()\<close> (line 142);
  \<^item> \<open>Returned r\<close>: \<^verbatim>\<open>Execute\<close> has returned \<open>r\<close>.
\<close>

datatype pc =
    LoopHead nat
  | LimiterWait nat
  | LimiterSleep nat
  | GroupGo nat
  | GroupWait
  | Returned "error option"

text \<open>
  What the scheduler and the environment choose:
  \<^item> \<open>Run\<close>: the dispatching thread takes its next step, if it is not blocked;
  \<^item> \<open>Token\<close>: the limiter's timer fires (the delay of the reservation has passed, or
    was zero);
  \<^item> \<open>NoToken\<close>: the dispatching thread calls \<^verbatim>\<open>Wait\<close> and the reservation would
    pass the context's deadline;
  \<^item> \<open>Finish i\<close>: the goroutine of item \<open>i\<close> returns from its handler;
  \<^item> \<open>Cancel e\<close>: the caller's context is cancelled with \<^verbatim>\<open>Err() = e\<close>.
\<close>

datatype event = Run | Token | NoToken | Finish nat | Cancel error

text \<open>
  The state shared by the threads. \<open>grp_ctx\<close> is \<^verbatim>\<open>grpCtx.Err()\<close>; \<open>g_err\<close> is the group's
  \<^verbatim>\<open>err\<close> field, \<open>g_limit\<close> the argument of \<^verbatim>\<open>SetLimit\<close>, \<open>running\<close> the goroutines
  started by \<^verbatim>\<open>g.Go\<close> that have not returned (each with its captured \<^verbatim>\<open>index\<close> and \<^verbatim>\<open>v\<close>);
  \<open>limiter\<close> tells whether \<^verbatim>\<open>rate.NewLimiter\<close> was called; \<open>errs\<close> is the slice under
  \<^verbatim>\<open>errLock\<close>; \<open>out\<close> is what the recovered panics printed (index and panic value).
  \<open>started\<close> and \<open>finished\<close> are history: the indices handed to \<^verbatim>\<open>g.Go\<close>, and the indices
  whose handler call has ended, each in the order it happened.
\<close>

record 'a exec_state =
  pc :: pc
  grp_ctx :: "error option"
  g_err :: "error option"
  g_limit :: int
  running :: "(nat \<times> 'a) list"
  limiter :: bool
  errs :: "error list"
  out :: "(nat \<times> string) list"
  started :: "nat list"
  finished :: "nat list"

text \<open>
  \<^verbatim>\<open>errgroup.WithContext(ctx)\<close> derives \<^verbatim>\<open>grpCtx\<close> from \<^verbatim>\<open>ctx\<close>: a parent that is
  already cancelled cancels the child at once, with the parent's error. Lines 84 to 96.
\<close>

definition init :: "BatchConfig \<Rightarrow> error option \<Rightarrow> 'a exec_state" where
  "init b ctx =
     \<lparr>pc = LoopHead 0, grp_ctx = ctx, g_err = None, g_limit = Concurrency b, running = [],
      limiter = (RateLimit b \<noteq> Inf), errs = [], out = [], started = [], finished = []\<rparr>"

text \<open>The group's \<^verbatim>\<open>cancel\<close>: the first cancellation of a context stays.\<close>

definition cancel :: "error \<Rightarrow> 'a exec_state \<Rightarrow> 'a exec_state" where
  "cancel e s = (case grp_ctx s of None \<Rightarrow> s\<lparr>grp_ctx := Some e\<rparr> | Some _ \<Rightarrow> s)"

text \<open>
  The body of the goroutine (lines 115 to 138) followed by errgroup's bookkeeping: a
  recovered panic prints and makes the function return \<^verbatim>\<open>nil\<close>; a returned error is
  appended to \<^verbatim>\<open>errs\<close> when \<^verbatim>\<open>IgnoreError\<close> is set, and otherwise goes to the group, whose
  \<^verbatim>\<open>errOnce\<close> keeps the first one and cancels \<^verbatim>\<open>grpCtx\<close>.
\<close>

definition goroutine :: "BatchConfig \<Rightarrow> 'a handler \<Rightarrow> nat \<Rightarrow> 'a \<Rightarrow> 'a exec_state \<Rightarrow> 'a exec_state" where
  "goroutine b handler index v s =
     (case handler (grp_ctx s) v of
        Panic r \<Rightarrow> s\<lparr>out := out s @ [(index, r)]\<rparr>
      | Return None \<Rightarrow> s
      | Return (Some err) \<Rightarrow>
          if IgnoreError b then s\<lparr>errs := errs s @ [ItemFailed index err]\<rparr>
          else (case g_err s of
                  None \<Rightarrow> cancel Canceled (s\<lparr>g_err := Some err\<rparr>)
                | Some _ \<Rightarrow> s))"

text \<open>
  The goroutine of item \<open>i\<close> ends: its handler call is over, its slot in the group is
  free again. Nothing happens when no goroutine of that index is running.
\<close>

definition finish :: "BatchConfig \<Rightarrow> 'a handler \<Rightarrow> nat \<Rightarrow> 'a exec_state \<Rightarrow> 'a exec_state" where
  "finish b handler i s =
     (case map_of (running s) i of
        None \<Rightarrow> s
      | Some v \<Rightarrow>
          goroutine b handler i v
            (s\<lparr>running := filter (\<lambda>(j, _). j \<noteq> i) (running s), finished := finished s @ [i]\<rparr>))"

text \<open>
  \<^verbatim>\<open>rate.Limiter.Wait\<close> up to its reservation: it fails when the burst is below the one
  token asked for, then when the context is already done; \<open>reserved\<close> tells whether the
  reservation fits the context's deadline.
\<close>

definition limiter_wait :: "BatchConfig \<Rightarrow> bool \<Rightarrow> nat \<Rightarrow> 'a exec_state \<Rightarrow> 'a exec_state" where
  "limiter_wait b reserved i s =
     (if 1 > Burst b then s\<lparr>pc := Returned (Some (RateLimiterError i (WaitExceedsBurst (Burst b))))\<rparr>
      else case grp_ctx s of
        Some e \<Rightarrow> s\<lparr>pc := Returned (Some (RateLimiterError i e))\<rparr>
      | None \<Rightarrow>
          if reserved then s\<lparr>pc := LimiterSleep i\<rparr>
          else s\<lparr>pc := Returned (Some (RateLimiterError i WaitExceedsDeadline))\<rparr>)"

text \<open>
  What \<^verbatim>\<open>Execute\<close> returns once \<^verbatim>\<open>g.Wait()\<close> is over (lines 142 to 150): the group's
  error if there is one; otherwise, when \<^verbatim>\<open>IgnoreError\<close> is set and \<^verbatim>\<open>errs\<close> is not empty,
  the count and \<^verbatim>\<open>errs[0]\<close>; otherwise \<^verbatim>\<open>nil\<close>.
\<close>

definition outcome :: "BatchConfig \<Rightarrow> 'a exec_state \<Rightarrow> error option" where
  "outcome b s =
     (case g_err s of
        Some err \<Rightarrow> Some err
      | None \<Rightarrow>
          if IgnoreError b \<and> length (errs s) > 0
          then Some (BatchFinished (length (errs s)) (hd (errs s)))
          else None)"

text \<open>
  \<^verbatim>\<open>g.Wait()\<close> once no goroutine is left: it cancels \<^verbatim>\<open>grpCtx\<close> and hands back the
  group's error.
\<close>

definition after_wait :: "BatchConfig \<Rightarrow> 'a exec_state \<Rightarrow> 'a exec_state" where
  "after_wait b s = (cancel Canceled s)\<lparr>pc := Returned (outcome b s)\<rparr>"

text \<open>
  One step of the dispatching thread (lines 98 to 144). At the top of the loop it
  checks \<^verbatim>\<open>grpCtx.Err()\<close> and breaks, or goes on to the limiter if there is one. Blocked
  for the token, it returns the error of line 111 once the context is done. \<^verbatim>\<open>g.Go\<close>
  starts the goroutine when the group's limit is negative (\<^verbatim>\<open>SetLimit\<close>: no limit) or not
  reached, and blocks otherwise. \<^verbatim>\<open>g.Wait()\<close> blocks while a goroutine is running.
\<close>

definition dispatcher :: "BatchConfig \<Rightarrow> 'a list \<Rightarrow> 'a exec_state \<Rightarrow> 'a exec_state" where
  "dispatcher b items s =
     (case pc s of
        LoopHead i \<Rightarrow>
          if i < length items then
            if grp_ctx s \<noteq> None then s\<lparr>pc := GroupWait\<rparr>
            else if limiter s then s\<lparr>pc := LimiterWait i\<rparr>
            else s\<lparr>pc := GroupGo i\<rparr>
          else s\<lparr>pc := GroupWait\<rparr>
      | LimiterWait i \<Rightarrow> limiter_wait b True i s
      | LimiterSleep i \<Rightarrow>
          (case grp_ctx s of
             Some e \<Rightarrow> s\<lparr>pc := Returned (Some (RateLimiterError i e))\<rparr>
           | None \<Rightarrow> s)
      | GroupGo i \<Rightarrow>
          if g_limit s < 0 \<or> int (length (running s)) < g_limit s
          then s\<lparr>running := running s @ [(i, items ! i)], started := started s @ [i],
                 pc := LoopHead (Suc i)\<rparr>
          else s
      | GroupWait \<Rightarrow> if running s = [] then after_wait b s else s
      | Returned r \<Rightarrow> s)"

text \<open>
  One event of a schedule. The timer of the limiter lets the thread go on to \<^verbatim>\<open>g.Go\<close>
  also when the context is done by then: the \<^verbatim>\<open>select\<close> in \<^verbatim>\<open>Wait\<close> may take either case.
  Goroutines end, and the caller's context is cancelled, also after \<^verbatim>\<open>Execute\<close> has
  returned.
\<close>

definition step :: "BatchConfig \<Rightarrow> 'a list \<Rightarrow> 'a handler \<Rightarrow> event \<Rightarrow> 'a exec_state \<Rightarrow> 'a exec_state" where
  "step b items handler e s =
     (case e of
        Run \<Rightarrow> dispatcher b items s
      | Token \<Rightarrow> (case pc s of LimiterSleep i \<Rightarrow> s\<lparr>pc := GroupGo i\<rparr> | _ \<Rightarrow> s)
      | NoToken \<Rightarrow> (case pc s of LimiterWait i \<Rightarrow> limiter_wait b False i s | _ \<Rightarrow> s)
      | Finish i \<Rightarrow> finish b handler i s
      | Cancel err \<Rightarrow> cancel err s)"

text \<open>A schedule, played from a state.\<close>

fun run :: "BatchConfig \<Rightarrow> 'a list \<Rightarrow> 'a handler \<Rightarrow> event list \<Rightarrow> 'a exec_state \<Rightarrow> 'a exec_state" where
  "run b items handler [] s = s"
| "run b items handler (e # es) s = run b items handler es (step b items handler e s)"

text \<open>
  \<^verbatim>\<open>Execute\<close>: the empty slice returns \<^verbatim>\<open>nil\<close> at line 80, before the group and the
  limiter are made; otherwise the schedule is played from the initial state.
\<close>

definition returned_empty :: "'a exec_state" where
  "returned_empty =
     \<lparr>pc = Returned None, grp_ctx = None, g_err = None, g_limit = 0, running = [],
      limiter = False, errs = [], out = [], started = [], finished = []\<rparr>"

definition Execute :: "BatchConfig \<Rightarrow> error option \<Rightarrow> 'a list \<Rightarrow> 'a handler \<Rightarrow> event list \<Rightarrow> 'a exec_state" where
  "Execute b ctx items handler sched =
     (if length items = 0 then returned_empty
      else run b items handler sched (init b ctx))"



section \<open>Predicates on states of Execute\<close>

text \<open>
  What holds of every state that \<^verbatim>\<open>Execute\<close> reaches: the indices handed to \<^verbatim>\<open>g.Go\<close> are
  \<open>0, \<dots>, k - 1\<close> for the index \<open>k\<close> the loop has reached, and a running goroutine holds
  the index and the item it was started with.
\<close>

definition wf_state :: "'a list \<Rightarrow> 'a exec_state \<Rightarrow> bool" where
  "wf_state items s \<longleftrightarrow>
     (\<exists>k\<le>length items. started s = [0..<k] \<and>
        (case pc s of
           LoopHead i \<Rightarrow> i = k
         | LimiterWait i \<Rightarrow> i = k \<and> i < length items
         | LimiterSleep i \<Rightarrow> i = k \<and> i < length items
         | GroupGo i \<Rightarrow> i = k \<and> i < length items
         | GroupWait \<Rightarrow> True
         | Returned r \<Rightarrow> True))
     \<and> (\<forall>(i, v) \<in> set (running s). i < length (started s) \<and> v = items ! i)"

text \<open>
  A state in which nothing has been dispatched and the context is done. From there the
  dispatching thread is at the loop's check, in \<^verbatim>\<open>g.Wait()\<close> or returned, and
  \<open>steps_left\<close> counts its steps to the return (the value at the other places is not
  used).
\<close>

definition idle :: "'a exec_state \<Rightarrow> bool" where
  "idle s \<longleftrightarrow> grp_ctx s \<noteq> None \<and> g_err s = None \<and> running s = [] \<and> started s = []
     \<and> finished s = [] \<and> errs s = [] \<and> out s = []"

fun steps_left :: "pc \<Rightarrow> nat" where
  "steps_left (LoopHead i) = 2"
| "steps_left GroupWait = 1"
| "steps_left (Returned r) = 0"
| "steps_left _ = 3"

definition precancelled :: "'a exec_state \<Rightarrow> bool" where
  "precancelled s \<longleftrightarrow> idle s \<and> (pc s = LoopHead 0 \<or> pc s = GroupWait \<or> pc s = Returned None)"

text \<open>
  The handler as the goroutine's \<^verbatim>\<open>recover\<close> makes it look to the group: where it
  panics, the goroutine returns \<^verbatim>\<open>nil\<close>.
\<close>

definition without_panics :: "'a handler \<Rightarrow> 'a handler" where
  "without_panics h = (\<lambda>c v. case h c v of Panic r \<Rightarrow> Return None | Return e \<Rightarrow> Return e)"

text \<open>
  Where \<^verbatim>\<open>Execute\<close> may stand and what it may have returned: the limiter is waited for
  only when it was made, and a returned value is either the error of line 111 or the
  value that follows \<^verbatim>\<open>g.Wait()\<close>, with no goroutine left.
\<close>

definition ret_inv :: "BatchConfig \<Rightarrow> 'a exec_state \<Rightarrow> bool" where
  "ret_inv b s \<longleftrightarrow>
     (limiter s \<longleftrightarrow> RateLimit b \<noteq> Inf)
   \<and> (case pc s of
        LimiterWait i \<Rightarrow> limiter s
      | LimiterSleep i \<Rightarrow> limiter s
      | Returned r \<Rightarrow>
          (limiter s \<and> (\<exists>i c. r = Some (RateLimiterError i c)))
          \<or> (running s = [] \<and> r = outcome b s)
      | _ \<Rightarrow> True)"

text \<open>Line 147 on a list of recorded errors.\<close>

definition aggregate :: "error list \<Rightarrow> error option" where
  "aggregate es = (if es = [] then None else Some (BatchFinished (length es) (hd es)))"

text \<open>The loop has seen the cancelled context at index \<open>i\<close>, with \<open>st\<close> dispatched so far.\<close>

definition halted :: "nat \<Rightarrow> nat list \<Rightarrow> 'a exec_state \<Rightarrow> bool" where
  "halted i st s \<longleftrightarrow> grp_ctx s \<noteq> None \<and> started s = st
     \<and> (pc s = LoopHead i \<or> pc s = GroupWait \<or> (\<exists>r. pc s = Returned r))"

text \<open>
  \<open>from_handler h items done i err\<close>: the handler call for item \<open>i\<close> has ended and
  \<open>err\<close> is the error value that the handler returns for this item. The second
  predicate says so of the group's error and of every element of \<^verbatim>\<open>errs\<close>.
\<close>

definition from_handler :: "'a handler \<Rightarrow> 'a list \<Rightarrow> nat list \<Rightarrow> nat \<Rightarrow> error \<Rightarrow> bool" where
  "from_handler h items done i err \<longleftrightarrow>
     i \<in> set done \<and> i < length items \<and> (\<exists>c. h c (items ! i) = Return (Some err))"

definition prov_inv :: "'a handler \<Rightarrow> 'a list \<Rightarrow> 'a exec_state \<Rightarrow> bool" where
  "prov_inv h items s \<longleftrightarrow>
     (\<forall>err. g_err s = Some err \<longrightarrow> (\<exists>i. from_handler h items (finished s) i err))
   \<and> (\<forall>x \<in> set (errs s). \<exists>i err. x = ItemFailed i err \<and> from_handler h items (finished s) i err)"


text \<open>
  A schedule on which the items are handled one after the other: for each index the
  dispatching thread goes from the loop's check to \<^verbatim>\<open>g.Go\<close> (through the limiter, when
  there is one, whose token is granted), and the goroutine ends before the next check;
  then the thread leaves the loop and \<^verbatim>\<open>g.Wait()\<close> returns.
\<close>

definition item_events :: "BatchConfig \<Rightarrow> nat \<Rightarrow> event list" where
  "item_events b i = (if RateLimit b = Inf then [Run, Run, Finish i] else [Run, Run, Token, Run, Finish i])"

definition one_by_one :: "BatchConfig \<Rightarrow> nat \<Rightarrow> event list" where
  "one_by_one b n = concat (map (item_events b) [0..<n]) @ [Run, Run]"

text \<open>
  What the handler calls for the first \<open>n\<close> items leave behind when each runs with a
  context that is not done: the errors returned, each wrapped with its index as on line
  130, and the panics printed. \<open>served b h items k\<close> is the state of \<^verbatim>\<open>Execute\<close> at the
  loop's check for index \<open>k\<close> when the items before it have been handled so.
\<close>

definition recorded :: "'a handler \<Rightarrow> 'a list \<Rightarrow> nat \<Rightarrow> error list" where
  "recorded h items n =
     concat (map (\<lambda>i. case h None (items ! i) of Return (Some err) \<Rightarrow> [ItemFailed i err] | _ \<Rightarrow> [])
       [0..<n])"

definition recovered :: "'a handler \<Rightarrow> 'a list \<Rightarrow> nat \<Rightarrow> (nat \<times> string) list" where
  "recovered h items n =
     concat (map (\<lambda>i. case h None (items ! i) of Panic r \<Rightarrow> [(i, r)] | _ \<Rightarrow> []) [0..<n])"

definition served :: "BatchConfig \<Rightarrow> 'a handler \<Rightarrow> 'a list \<Rightarrow> nat \<Rightarrow> 'a exec_state" where
  "served b h items k =
     \<lparr>pc = LoopHead k, grp_ctx = None, g_err = None, g_limit = Concurrency b, running = [],
      limiter = (RateLimit b \<noteq> Inf), errs = recorded h items k, out = recovered h items k,
      started = [0..<k], finished = [0..<k]\<rparr>"


section \<open>The stream worker pool\<close>

text \<open>
  \<^verbatim>\<open>stream.go\<close>: \<^verbatim>\<open>Start\<close> spawns \<^verbatim>\<open>concurrency\<close> workers and waits for them with a
  \<^verbatim>\<open>sync.WaitGroup\<close>. A worker loops over a \<^verbatim>\<open>select\<close> between \<^verbatim>\<open>ctx.Done()\<close> and a
  receive from \<^verbatim>\<open>ch\<close>; it calls the handler under a \<^verbatim>\<open>recover\<close> and drops what the
  handler returns. The channel is the list of the values sent and not yet received,
  and a flag for \<^verbatim>\<open>close(ch)\<close>; sending and closing are events of the environment, as
  is the cancellation of \<^verbatim>\<open>ctx\<close>.
\<close>

record 'a Worker =
  concurrency :: int
  handler :: "'a handler"

text \<open>Lines 18 to 26; \<open>n\<close> and \<open>f\<close> are the parameters \<^verbatim>\<open>concurrency\<close> and \<^verbatim>\<open>handler\<close>.\<close>

definition NewStreamWorker :: "int \<Rightarrow> 'a handler \<Rightarrow> 'a Worker" where
  "NewStreamWorker n f = \<lparr>concurrency = (if n \<le> 0 then 1 else n), handler = f\<rparr>"

text \<open>
  Where a worker stands: at its \<^verbatim>\<open>select\<close>, in the handler call for a value it has
  received, or returned.
\<close>

datatype 'a worker_pc = Select | Handling 'a | Exited

text \<open>
  \<^verbatim>\<open>Start\<close>'s own thread: \<open>Spawning i\<close> is the loop test \<^verbatim>\<open>i < s.concurrency\<close> (line 36),
  \<open>Waiting\<close> is \<^verbatim>\<open>wg.Wait()\<close> (line 71).
\<close>

datatype start_pc = Spawning nat | Waiting | StartReturned

text \<open>
  What the scheduler and the environment choose:
  \<^item> \<open>StartRun\<close>: \<^verbatim>\<open>Start\<close>'s thread takes its next step, if it is not blocked;
  \<^item> \<open>Receive k\<close>: the \<^verbatim>\<open>select\<close> of worker \<open>k\<close> takes the receive from \<^verbatim>\<open>ch\<close>;
  \<^item> \<open>CtxDone k\<close>: the \<^verbatim>\<open>select\<close> of worker \<open>k\<close> takes \<^verbatim>\<open>ctx.Done()\<close>;
  \<^item> \<open>HandlerEnds k\<close>: the handler call of worker \<open>k\<close> ends;
  \<^item> \<open>Send v\<close> and \<open>Close\<close>: a producer sends \<open>v\<close> on \<^verbatim>\<open>ch\<close>, or closes it;
  \<^item> \<open>CancelCtx e\<close>: \<^verbatim>\<open>ctx\<close> is cancelled with \<^verbatim>\<open>Err() = e\<close>.
\<close>

datatype 'a pool_event =
    StartRun
  | Receive nat
  | CtxDone nat
  | HandlerEnds nat
  | Send 'a
  | Close
  | CancelCtx error

text \<open>
  \<open>wg\<close> is the counter of the \<^verbatim>\<open>WaitGroup\<close>; \<open>printed\<close> holds the worker id and the panic
  value of each \<^verbatim>\<open>fmt.Printf\<close> (line 58); \<open>handled\<close> is history: which worker received
  which value.
\<close>

record 'a pool_state =
  start_pc :: start_pc
  ctx_err :: "error option"
  ch :: "'a list"
  ch_closed :: bool
  workers :: "'a worker_pc list"
  wg :: int
  printed :: "(nat \<times> string) list"
  handled :: "(nat \<times> 'a) list"

text \<open>
  The state at the call of \<^verbatim>\<open>Start\<close>: \<open>ctx\<close> is \<^verbatim>\<open>ctx.Err()\<close>, \<open>buf\<close> what \<^verbatim>\<open>ch\<close> holds,
  \<open>cl\<close> whether it is closed already.
\<close>

definition pool_init :: "error option \<Rightarrow> 'a list \<Rightarrow> bool \<Rightarrow> 'a pool_state" where
  "pool_init ctx buf cl =
     \<lparr>start_pc = Spawning 0, ctx_err = ctx, ch = buf, ch_closed = cl, workers = [], wg = 0,
      printed = [], handled = []\<rparr>"

text \<open>Lines 36 to 39 and line 71.\<close>

definition start_thread :: "'a Worker \<Rightarrow> 'a pool_state \<Rightarrow> 'a pool_state" where
  "start_thread w s =
     (case start_pc s of
        Spawning i \<Rightarrow>
          if int i < concurrency w
          then s\<lparr>wg := wg s + 1, workers := workers s @ [Select], start_pc := Spawning (Suc i)\<rparr>
          else s\<lparr>start_pc := Waiting\<rparr>
      | Waiting \<Rightarrow> if wg s = 0 then s\<lparr>start_pc := StartReturned\<rparr> else s
      | StartReturned \<Rightarrow> s)"

text \<open>A worker returns: the deferred \<^verbatim>\<open>wg.Done()\<close> (line 40).\<close>

definition worker_exit :: "nat \<Rightarrow> 'a pool_state \<Rightarrow> 'a pool_state" where
  "worker_exit k s = s\<lparr>workers := (workers s)[k := Exited], wg := wg s - 1\<rparr>"

text \<open>
  The receive case of the \<^verbatim>\<open>select\<close> (lines 47 to 51): it is ready when a value is
  there, or when the channel is closed and empty, and then the worker returns.
\<close>

definition receive :: "nat \<Rightarrow> 'a pool_state \<Rightarrow> 'a pool_state" where
  "receive k s =
     (if k < length (workers s) \<and> workers s ! k = Select then
        (case ch s of
           v # rest \<Rightarrow> s\<lparr>ch := rest, workers := (workers s)[k := Handling v],
                           handled := handled s @ [(k, v)]\<rparr>
         | [] \<Rightarrow> if ch_closed s then worker_exit k s else s)
      else s)"

text \<open>The \<^verbatim>\<open>ctx.Done()\<close> case (lines 45 and 46).\<close>

definition ctx_done :: "nat \<Rightarrow> 'a pool_state \<Rightarrow> 'a pool_state" where
  "ctx_done k s =
     (if k < length (workers s) \<and> workers s ! k = Select \<and> ctx_err s \<noteq> None
      then worker_exit k s else s)"

text \<open>
  The handler call ends (lines 55 to 64): a panic is recovered and printed, the returned
  error is dropped, and the worker is back at its \<^verbatim>\<open>select\<close>.
\<close>

definition handler_ends :: "'a Worker \<Rightarrow> nat \<Rightarrow> 'a pool_state \<Rightarrow> 'a pool_state" where
  "handler_ends w k s =
     (if k < length (workers s) then
        (case workers s ! k of
           Handling v \<Rightarrow>
             (case handler w (ctx_err s) v of
                Panic r \<Rightarrow> s\<lparr>printed := printed s @ [(k, r)], workers := (workers s)[k := Select]\<rparr>
              | Return _ \<Rightarrow> s\<lparr>workers := (workers s)[k := Select]\<rparr>)
         | _ \<Rightarrow> s)
      else s)"

text \<open>
  One event. A send on a closed channel and a second close panic in the producer and
  leave the pool as it is.
\<close>

definition pool_step :: "'a Worker \<Rightarrow> 'a pool_event \<Rightarrow> 'a pool_state \<Rightarrow> 'a pool_state" where
  "pool_step w e s =
     (case e of
        StartRun \<Rightarrow> start_thread w s
      | Receive k \<Rightarrow> receive k s
      | CtxDone k \<Rightarrow> ctx_done k s
      | HandlerEnds k \<Rightarrow> handler_ends w k s
      | Send v \<Rightarrow> if ch_closed s then s else s\<lparr>ch := ch s @ [v]\<rparr>
      | Close \<Rightarrow> s\<lparr>ch_closed := True\<rparr>
      | CancelCtx c \<Rightarrow> (case ctx_err s of None \<Rightarrow> s\<lparr>ctx_err := Some c\<rparr> | Some _ \<Rightarrow> s))"

fun pool_run :: "'a Worker \<Rightarrow> 'a pool_event list \<Rightarrow> 'a pool_state \<Rightarrow> 'a pool_state" where
  "pool_run w [] s = s"
| "pool_run w (e # es) s = pool_run w es (pool_step w e s)"

text \<open>\<^verbatim>\<open>Start\<close> on a schedule (lines 32 to 72).\<close>

definition Start :: "'a Worker \<Rightarrow> error option \<Rightarrow> 'a list \<Rightarrow> bool \<Rightarrow> 'a pool_event list \<Rightarrow> 'a pool_state" where
  "Start w ctx buf cl sched = pool_run w sched (pool_init ctx buf cl)"

text \<open>The workers that have not returned, and what holds of every state of \<^verbatim>\<open>Start\<close>.\<close>

definition live :: "'a worker_pc list \<Rightarrow> nat" where
  "live ws = length (filter (\<lambda>p. p \<noteq> Exited) ws)"

definition pool_inv :: "'a Worker \<Rightarrow> 'a pool_state \<Rightarrow> bool" where
  "pool_inv w s \<longleftrightarrow>
     wg s = int (live (workers s))
   \<and> (case start_pc s of
        Spawning i \<Rightarrow> length (workers s) = i \<and> int i \<le> concurrency w
      | Waiting \<Rightarrow> int (length (workers s)) = concurrency w
      | StartReturned \<Rightarrow> int (length (workers s)) = concurrency w \<and> wg s = 0)
   \<and> (Exited \<in> set (workers s) \<longrightarrow> ctx_err s \<noteq> None \<or> (ch_closed s \<and> ch s = []))"

text \<open>
  Schedules on which \<^verbatim>\<open>Start\<close> comes to its end, for \<open>n\<close> workers. On \<open>leave ev n\<close> each
  worker in turn ends the handler call it may be in and then takes the case \<open>ev\<close> of
  its \<^verbatim>\<open>select\<close>. \<open>shutdown n\<close>: \<^verbatim>\<open>Start\<close>'s thread spawns what is left to spawn, every
  worker takes \<^verbatim>\<open>ctx.Done()\<close>, and \<^verbatim>\<open>wg.Wait()\<close> returns. \<open>drain n m\<close>: after the spawning
  worker 0 receives and handles \<open>m\<close> values, every worker takes the receive, and
  \<^verbatim>\<open>wg.Wait()\<close> returns. \<open>spawn_left\<close> counts the steps of \<^verbatim>\<open>Start\<close>'s thread up to
  \<^verbatim>\<open>wg.Wait()\<close>.
\<close>

definition leave :: "(nat \<Rightarrow> 'a pool_event) \<Rightarrow> nat \<Rightarrow> 'a pool_event list" where
  "leave ev n = concat (map (\<lambda>k. [HandlerEnds k, ev k]) [0..<n])"

definition shutdown :: "nat \<Rightarrow> 'a pool_event list" where
  "shutdown n = replicate (Suc n) StartRun @ leave CtxDone n @ [StartRun]"

definition drain :: "nat \<Rightarrow> nat \<Rightarrow> 'a pool_event list" where
  "drain n m =
     replicate (Suc n) StartRun @ HandlerEnds 0 # concat (replicate m [Receive 0, HandlerEnds 0])
       @ leave Receive n @ [StartRun]"

definition spawn_left :: "'a Worker \<Rightarrow> 'a pool_state \<Rightarrow> nat" where
  "spawn_left w s = (case start_pc s of Spawning i \<Rightarrow> Suc (nat (concurrency w) - i) | _ \<Rightarrow> 0)"


section \<open>Configuration\<close>

lemma package_option_Concurrency:
  assumes "opt \<in> package_options" and "1 \<le> Concurrency c"
  shows "1 \<le> Concurrency (opt c)"
  using assms
  by (induction rule: package_options.induct)
     (simp_all add: WithConcurrency_def WithRateLimit_def WithBurst_def WithIgnoreError_def)

lemma fold_package_options_Concurrency:
  "set opts \<subseteq> package_options \<Longrightarrow> 1 \<le> Concurrency c \<Longrightarrow>
   1 \<le> Concurrency (fold (\<lambda>opt cfg. opt cfg) opts c)"
  by (induction opts arbitrary: c) (simp_all add: package_option_Concurrency)

lemma NewBatchExecutor_snoc:
  "NewBatchExecutor (opts @ [opt]) = opt (NewBatchExecutor opts)"
  by (simp add: NewBatchExecutor_def)

text \<open>
  C2, as the claim has it, fails: \<^verbatim>\<open>WithConcurrency(0)\<close> leaves the default of 10 in
  place, it does not set 1.
\<close>

theorem C2_not_coerced_to_one:
  "Concurrency (NewBatchExecutor [WithConcurrency 0]) \<noteq> 1
   \<and> g_limit (Execute (NewBatchExecutor [WithConcurrency 0]) None [()] (\<lambda>_ _. Return None) []) = 10"
  by (simp add: Execute_def init_def NewBatchExecutor_def WithConcurrency_def default_config_def)

text \<open>
  C2, amended. \<^verbatim>\<open>WithConcurrency(n)\<close> with \<open>n \<le> 0\<close> is ignored: the configuration, and
  so the limit that \<^verbatim>\<open>Execute\<close> gives the group, is what the options before it made (10
  when none set it). With the package's options, the limit in effect is always at
  least 1.
\<close>

theorem C2_nonpositive_concurrency_ignored:
  assumes "set opts \<subseteq> package_options" and "items \<noteq> []"
  shows "(n \<le> 0 \<longrightarrow> NewBatchExecutor (opts @ [WithConcurrency n]) = NewBatchExecutor opts)
       \<and> (n \<le> 0 \<longrightarrow> NewBatchExecutor [WithConcurrency n] = default_config)
       \<and> Concurrency default_config = 10
       \<and> 1 \<le> Concurrency (NewBatchExecutor opts)
       \<and> g_limit (Execute (NewBatchExecutor opts) ctx items h []) = Concurrency (NewBatchExecutor opts)"
proof -
  have "1 \<le> Concurrency (NewBatchExecutor opts)"
    unfolding NewBatchExecutor_def
    using assms(1) by (rule fold_package_options_Concurrency) (simp add: default_config_def)
  moreover have "n \<le> 0 \<longrightarrow> NewBatchExecutor (opts @ [WithConcurrency n]) = NewBatchExecutor opts"
    by (simp add: NewBatchExecutor_snoc WithConcurrency_def)
  moreover have "n \<le> 0 \<longrightarrow> NewBatchExecutor [WithConcurrency n] = default_config"
    by (simp add: NewBatchExecutor_def WithConcurrency_def)
  moreover have "g_limit (Execute (NewBatchExecutor opts) ctx items h []) = Concurrency (NewBatchExecutor opts)"
    using assms(2) by (simp add: Execute_def init_def)
  ultimately show ?thesis by (simp add: default_config_def)
qed

text \<open>
  C2, amended, at \<^verbatim>\<open>NewBatchExecutor(WithRateLimit(5), WithConcurrency(4))\<close> followed by
  \<^verbatim>\<open>WithConcurrency(-3)\<close>: the concurrency stays 4.
\<close>

theorem C2_nonpositive_concurrency_ignored_witness:
  "set [WithRateLimit 5, WithConcurrency 4] \<subseteq> package_options \<and> [()] \<noteq> [] \<and> (-3::int) \<le> 0
   \<and> NewBatchExecutor ([WithRateLimit 5, WithConcurrency 4] @ [WithConcurrency (-3)])
       = NewBatchExecutor [WithRateLimit 5, WithConcurrency 4]
   \<and> NewBatchExecutor [WithConcurrency (-3)] = default_config
   \<and> Concurrency (NewBatchExecutor [WithRateLimit 5, WithConcurrency 4]) = 4
   \<and> g_limit (Execute (NewBatchExecutor [WithRateLimit 5, WithConcurrency 4]) None [()]
         (\<lambda>_ _. Return None) []) = 4"
proof -
  have opts: "set [WithRateLimit 5, WithConcurrency 4] \<subseteq> package_options"
    by (simp add: package_options.concurrency package_options.rate_limit)
  have items: "[()] \<noteq> []" by simp
  have four: "Concurrency (NewBatchExecutor [WithRateLimit 5, WithConcurrency 4]) = 4"
    by (simp add: NewBatchExecutor_def WithConcurrency_def WithRateLimit_def default_config_def)
  show ?thesis
    using C2_nonpositive_concurrency_ignored [OF opts items, of "-3" None "\<lambda>_ _. Return None"] opts four
    by simp
qed


section \<open>Schedules and invariants\<close>

lemma run_append: "run b items h (es1 @ es2) s = run b items h es2 (run b items h es1 s)"
  by (induction es1 arbitrary: s) simp_all

lemma run_invariant:
  assumes "P s" and "\<And>e s. P s \<Longrightarrow> P (step b items h e s)"
  shows "P (run b items h es s)"
  using assms(1) by (induction es arbitrary: s) (simp_all add: assms(2))

lemma cancel_simps [simp]:
  "pc (cancel e s) = pc s" "g_err (cancel e s) = g_err s" "g_limit (cancel e s) = g_limit s"
  "running (cancel e s) = running s" "limiter (cancel e s) = limiter s" "errs (cancel e s) = errs s"
  "out (cancel e s) = out s" "started (cancel e s) = started s" "finished (cancel e s) = finished s"
  "grp_ctx (cancel e s) = (case grp_ctx s of None \<Rightarrow> Some e | Some c \<Rightarrow> Some c)"
  by (simp_all add: cancel_def split: option.splits)

lemma goroutine_simps [simp]:
  "pc (goroutine b h i v s) = pc s" "g_limit (goroutine b h i v s) = g_limit s"
  "running (goroutine b h i v s) = running s" "limiter (goroutine b h i v s) = limiter s"
  "started (goroutine b h i v s) = started s" "finished (goroutine b h i v s) = finished s"
  by (simp_all add: goroutine_def split: handler_result.splits option.splits)

lemma finish_simps [simp]:
  "pc (finish b h i s) = pc s" "g_limit (finish b h i s) = g_limit s"
  "limiter (finish b h i s) = limiter s" "started (finish b h i s) = started s"
  by (simp_all add: finish_def split: option.splits)

lemma finish_idle [simp]: "running s = [] \<Longrightarrow> finish b h i s = s"
  by (simp add: finish_def)

lemma step_Returned: "pc s = Returned r \<Longrightarrow> pc (step b items h e s) = Returned r \<and> started (step b items h e s) = started s"
  by (cases e) (simp_all add: step_def dispatcher_def)

lemma run_Returned: "pc s = Returned r \<Longrightarrow> pc (run b items h es s) = Returned r \<and> started (run b items h es s) = started s"
proof (induction es arbitrary: s)
  case Nil
  then show ?case by simp
next
  case (Cons e es)
  from step_Returned [OF Cons.prems, of b items h e] Cons.IH [of "step b items h e s"]
  show ?case by simp
qed

lemma wf_init: "wf_state items (init b ctx)"
  by (simp add: wf_state_def init_def)

lemma wf_cancel: "wf_state items s \<Longrightarrow> wf_state items (cancel e s)"
  by (simp add: wf_state_def)

lemma wf_goroutine: "wf_state items s \<Longrightarrow> wf_state items (goroutine b h i v s)"
  by (simp add: wf_state_def)

lemma wf_finish: "wf_state items s \<Longrightarrow> wf_state items (finish b h i s)"
  unfolding finish_def
  by (auto split: option.splits intro!: wf_goroutine simp: wf_state_def)

lemma wf_limiter_wait: "wf_state items s \<Longrightarrow> pc s = LimiterWait i \<Longrightarrow> wf_state items (limiter_wait b r i s)"
  by (auto simp: wf_state_def limiter_wait_def split: option.splits)

lemma wf_after_wait: "wf_state items s \<Longrightarrow> wf_state items (after_wait b s)"
  by (auto simp: wf_state_def after_wait_def outcome_def split: option.splits)

lemma wf_dispatcher: "wf_state items s \<Longrightarrow> wf_state items (dispatcher b items s)"
  unfolding dispatcher_def
  apply (cases "pc s")
  apply (auto simp: wf_limiter_wait wf_after_wait split: option.splits)
  apply (auto simp: wf_state_def less_Suc_eq)
  done

lemma wf_step: "wf_state items s \<Longrightarrow> wf_state items (step b items h e s)"
  apply (cases e)
  apply (auto simp: step_def wf_dispatcher wf_finish wf_cancel wf_limiter_wait split: pc.splits)
  apply (auto simp: wf_state_def)
  done

lemma wf_run: "wf_state items s \<Longrightarrow> wf_state items (run b items h es s)"
  by (rule run_invariant) (simp_all add: wf_step)

lemmas exec_eval = Execute_def init_def step_def dispatcher_def limiter_wait_def after_wait_def
  outcome_def finish_def goroutine_def cancel_def NewBatchExecutor_def default_config_def
  WithConcurrency_def WithRateLimit_def WithBurst_def WithIgnoreError_def

lemma Execute_append_step:
  "items \<noteq> [] \<Longrightarrow> Execute b ctx items h (es1 @ e # es2)
     = run b items h es2 (step b items h e (Execute b ctx items h es1))"
  by (simp add: Execute_def run_append)

lemma Execute_append:
  "items \<noteq> [] \<Longrightarrow> Execute b ctx items h (es1 @ es2) = run b items h es2 (Execute b ctx items h es1)"
  by (simp add: Execute_def run_append)


section \<open>Empty input\<close>

text \<open>
  C8. On the empty slice \<^verbatim>\<open>Execute\<close> returns \<^verbatim>\<open>nil\<close> whatever the configuration, the
  context, the handler and the schedule are (so before any event): no limiter was made,
  nothing was handed to \<^verbatim>\<open>g.Go\<close>, no handler call is running or has ended.
\<close>

theorem C8_empty_input:
  "Execute b ctx [] h sched = returned_empty
   \<and> pc (Execute b ctx [] h sched) = Returned None
   \<and> \<not> limiter (Execute b ctx [] h sched)
   \<and> started (Execute b ctx [] h sched) = []
   \<and> running (Execute b ctx [] h sched) = []
   \<and> finished (Execute b ctx [] h sched) = []"
  by (simp add: Execute_def returned_empty_def)


section \<open>A context that is cancelled before the call\<close>

lemma precancelled_step:
  assumes "precancelled s" and "items \<noteq> []"
  shows "precancelled (step b items h e s)
       \<and> steps_left (pc (step b items h e s)) = steps_left (pc s) - (if e = Run then 1 else 0)"
  using assms
  by (cases e)
     (auto simp: precancelled_def idle_def step_def dispatcher_def after_wait_def outcome_def
           split: option.splits)

lemma precancelled_run:
  assumes "precancelled s" and "items \<noteq> []"
  shows "precancelled (run b items h es s)
       \<and> steps_left (pc (run b items h es s)) = steps_left (pc s) - length (filter (\<lambda>e. e = Run) es)"
  using assms(1)
proof (induction es arbitrary: s)
  case Nil
  then show ?case by simp
next
  case (Cons e es)
  from precancelled_step [OF Cons.prems assms(2), of b h e] Cons.IH [of "step b items h e s"]
  show ?case by (cases "e = Run") simp_all
qed
text \<open>
  C9. When the caller's context is already done at the call (\<open>ctx = Some c\<close>) and the slice
  is not empty, then on every schedule and for every configuration and handler: nothing
  is ever handed to \<^verbatim>\<open>g.Go\<close>, no handler call runs or ends, the dispatching thread is only
  ever at the first check of the loop, in \<^verbatim>\<open>g.Wait()\<close> or returned with \<^verbatim>\<open>nil\<close> (never in
  \<^verbatim>\<open>limiter.Wait\<close>), and after two steps of its own it has returned \<^verbatim>\<open>nil\<close>.
\<close>

theorem C9_cancelled_before_call:
  assumes "items \<noteq> []"
  shows "started (Execute b (Some c) items h sched) = []
       \<and> finished (Execute b (Some c) items h sched) = []
       \<and> running (Execute b (Some c) items h sched) = []
       \<and> pc (Execute b (Some c) items h sched) \<in> {LoopHead 0, GroupWait, Returned None}
       \<and> (2 \<le> length (filter (\<lambda>e. e = Run) sched) \<longrightarrow>
            pc (Execute b (Some c) items h sched) = Returned None)"
proof -
  have "precancelled (init b (Some c) :: 'a exec_state)"
    by (simp add: precancelled_def idle_def init_def)
  from precancelled_run [OF this assms, of b h sched]
  have *: "precancelled (run b items h sched (init b (Some c)))"
    and **: "steps_left (pc (run b items h sched (init b (Some c)))) = 2 - length (filter (\<lambda>e. e = Run) sched)"
    by (simp_all add: init_def)
  have "2 \<le> length (filter (\<lambda>e. e = Run) sched) \<longrightarrow> pc (run b items h sched (init b (Some c))) = Returned None"
    using * ** by (auto simp: precancelled_def)
  with * assms show ?thesis
    by (auto simp: Execute_def precancelled_def idle_def)
qed

text \<open>
  C9 at a configuration with a rate limit and \<^verbatim>\<open>IgnoreError\<close>, two items and a handler that
  would fail.
\<close>

theorem C9_cancelled_before_call_witness:
  "[''a'', ''b''] \<noteq> []
   \<and> 2 \<le> length (filter (\<lambda>e. e = Run) [Run, Token, Finish 0, Run, Run])
   \<and> started (Execute (NewBatchExecutor [WithRateLimit 1, WithIgnoreError True]) (Some Canceled) [''a'', ''b'']
        (\<lambda>_ _. Return (Some (ErrorString ''never called''))) [Run, Token, Finish 0, Run, Run]) = []
   \<and> finished (Execute (NewBatchExecutor [WithRateLimit 1, WithIgnoreError True]) (Some Canceled) [''a'', ''b'']
        (\<lambda>_ _. Return (Some (ErrorString ''never called''))) [Run, Token, Finish 0, Run, Run]) = []
   \<and> pc (Execute (NewBatchExecutor [WithRateLimit 1, WithIgnoreError True]) (Some Canceled) [''a'', ''b'']
        (\<lambda>_ _. Return (Some (ErrorString ''never called''))) [Run, Token, Finish 0, Run, Run]) = Returned None"
proof -
  have ne: "[''a'', ''b''] \<noteq> []" by simp
  have runs: "2 \<le> length (filter (\<lambda>e. e = Run) [Run, Token, Finish 0, Run, Run])" by simp
  show ?thesis
    using C9_cancelled_before_call [OF ne, of "NewBatchExecutor [WithRateLimit 1, WithIgnoreError True]" Canceled
        "\<lambda>_ _. Return (Some (ErrorString ''never called''))" "[Run, Token, Finish 0, Run, Run]"] runs
    by simp
qed


section \<open>Admission failure\<close>

text \<open>
  C5. Let the dispatching thread be in \<^verbatim>\<open>limiter.Wait\<close> for the item at index \<open>i\<close>, either
  blocked for the token or, with a burst of at least 1, just calling it, and let the
  context be done with error \<open>c\<close>. Then its next step makes \<^verbatim>\<open>Execute\<close> return the error
  \<^verbatim>\<open>"rate limiter error at index i: c"\<close>, and whatever happens afterwards the indices
  handed to \<^verbatim>\<open>g.Go\<close> are those below \<open>i\<close>: neither item \<open>i\<close> nor a later one is dispatched.
  Nothing is assumed of \<^verbatim>\<open>IgnoreError\<close>.
\<close>

theorem C5_admission_failure:
  assumes "(pc (Execute b ctx items h es1) = LimiterSleep i \<and> e = Run)
         \<or> (pc (Execute b ctx items h es1) = LimiterWait i \<and> 1 \<le> Burst b \<and> (e = Run \<or> e = NoToken))"
    and "grp_ctx (Execute b ctx items h es1) = Some c"
  shows "pc (Execute b ctx items h (es1 @ e # es2)) = Returned (Some (RateLimiterError i c))
       \<and> started (Execute b ctx items h (es1 @ e # es2)) = [0..<i]
       \<and> i < length items"
proof -
  have ne: "length items \<noteq> 0"
    using assms(1) by (auto simp: Execute_def returned_empty_def)
  define s where "s = run b items h es1 (init b ctx)"
  have s: "Execute b ctx items h es1 = s"
    using ne by (simp add: Execute_def s_def)
  have wf: "wf_state items s"
    unfolding s_def by (rule wf_run) (rule wf_init)
  from assms(1) wf have pos: "started s = [0..<i]" "i < length items"
    unfolding s by (auto simp: wf_state_def)
  have ret: "pc (step b items h e s) = Returned (Some (RateLimiterError i c))"
    and st: "started (step b items h e s) = started s"
    using assms unfolding s
    by (auto simp: step_def dispatcher_def limiter_wait_def)
  have "Execute b ctx items h (es1 @ e # es2) = run b items h es2 (step b items h e s)"
    using ne by (simp add: Execute_def run_append s_def)
  with run_Returned [OF ret, of b items h es2] st pos show ?thesis by simp
qed

text \<open>
  C5 under both policies: the context is cancelled while the thread is blocked for the
  token of item 1 (fail-fast), and its deadline passes just before \<^verbatim>\<open>Wait\<close> is called for
  item 1 (\<^verbatim>\<open>IgnoreError\<close>).
\<close>

theorem C5_admission_failure_witness:
  "pc (Execute (NewBatchExecutor [WithRateLimit 1]) None [''a'', ''b''] (\<lambda>_ _. Return None)
        [Run, Run, Token, Run, Run, Run, Cancel Canceled]) = LimiterSleep 1
   \<and> grp_ctx (Execute (NewBatchExecutor [WithRateLimit 1]) None [''a'', ''b''] (\<lambda>_ _. Return None)
        [Run, Run, Token, Run, Run, Run, Cancel Canceled]) = Some Canceled
   \<and> pc (Execute (NewBatchExecutor [WithRateLimit 1]) None [''a'', ''b''] (\<lambda>_ _. Return None)
        ([Run, Run, Token, Run, Run, Run, Cancel Canceled] @ Run # [Token, Run, Finish 0, Run]))
       = Returned (Some (RateLimiterError 1 Canceled))
   \<and> started (Execute (NewBatchExecutor [WithRateLimit 1]) None [''a'', ''b''] (\<lambda>_ _. Return None)
        ([Run, Run, Token, Run, Run, Run, Cancel Canceled] @ Run # [Token, Run, Finish 0, Run]))
       = [0]
   \<and> pc (Execute (NewBatchExecutor [WithRateLimit 1, WithIgnoreError True]) None [''a'', ''b''] (\<lambda>_ _. Return None)
        [Run, Run, Token, Run, Run, Cancel DeadlineExceeded]) = LimiterWait 1
   \<and> 1 \<le> Burst (NewBatchExecutor [WithRateLimit 1, WithIgnoreError True])
   \<and> pc (Execute (NewBatchExecutor [WithRateLimit 1, WithIgnoreError True]) None [''a'', ''b''] (\<lambda>_ _. Return None)
        ([Run, Run, Token, Run, Run, Cancel DeadlineExceeded] @ Run # [Finish 0]))
       = Returned (Some (RateLimiterError 1 DeadlineExceeded))"
proof -
  let ?h = "\<lambda>(_ :: error option) (_ :: string). Return None"
  let ?es = "[Run, Run, Token, Run, Run, Run, Cancel Canceled]"
  let ?es' = "[Run, Run, Token, Run, Run, Cancel DeadlineExceeded]"
  have 1: "(pc (Execute (NewBatchExecutor [WithRateLimit 1]) None [''a'', ''b''] ?h ?es) = LimiterSleep 1 \<and> Run = Run)
         \<or> (pc (Execute (NewBatchExecutor [WithRateLimit 1]) None [''a'', ''b''] ?h ?es) = LimiterWait 1
            \<and> 1 \<le> Burst (NewBatchExecutor [WithRateLimit 1]) \<and> (Run = Run \<or> Run = NoToken))"
    by (simp add: exec_eval)
  have 2: "grp_ctx (Execute (NewBatchExecutor [WithRateLimit 1]) None [''a'', ''b''] ?h ?es) = Some Canceled"
    by (simp add: exec_eval)
  have 3: "(pc (Execute (NewBatchExecutor [WithRateLimit 1, WithIgnoreError True]) None [''a'', ''b''] ?h ?es') = LimiterSleep 1 \<and> Run = Run)
         \<or> (pc (Execute (NewBatchExecutor [WithRateLimit 1, WithIgnoreError True]) None [''a'', ''b''] ?h ?es') = LimiterWait 1
            \<and> 1 \<le> Burst (NewBatchExecutor [WithRateLimit 1, WithIgnoreError True]) \<and> (Run = Run \<or> Run = NoToken))"
    by (simp add: exec_eval)
  have 4: "grp_ctx (Execute (NewBatchExecutor [WithRateLimit 1, WithIgnoreError True]) None [''a'', ''b''] ?h ?es') = Some DeadlineExceeded"
    by (simp add: exec_eval)
  have 5: "pc (Execute (NewBatchExecutor [WithRateLimit 1]) None [''a'', ''b''] ?h ?es) = LimiterSleep 1"
    "pc (Execute (NewBatchExecutor [WithRateLimit 1, WithIgnoreError True]) None [''a'', ''b''] ?h ?es') = LimiterWait 1"
    "1 \<le> Burst (NewBatchExecutor [WithRateLimit 1, WithIgnoreError True])"
    by (simp_all add: exec_eval)
  show ?thesis
    using C5_admission_failure [OF 1 2, of "[Token, Run, Finish 0, Run]"]
      C5_admission_failure [OF 3 4, of "[Finish 0]"] 2 5
    by simp
qed


section \<open>Panics\<close>

lemma cancel_out: "cancel e (s\<lparr>out := x\<rparr>) = (cancel e s)\<lparr>out := x\<rparr>"
  by (simp add: cancel_def split: option.splits)

lemma goroutine_without_panics:
  "goroutine b (without_panics h) i v (s\<lparr>out := []\<rparr>) = (goroutine b h i v s)\<lparr>out := []\<rparr>"
  by (simp add: goroutine_def without_panics_def cancel_def split: handler_result.splits option.splits)

lemma finish_without_panics:
  "finish b (without_panics h) i (s\<lparr>out := []\<rparr>) = (finish b h i s)\<lparr>out := []\<rparr>"
proof (cases "map_of (running s) i")
  case None
  then show ?thesis by (simp add: finish_def)
next
  case (Some v)
  let ?t = "s\<lparr>running := filter (\<lambda>(j, _). j \<noteq> i) (running s), finished := finished s @ [i]\<rparr>"
  have swap: "s\<lparr>out := [], running := filter (\<lambda>(j, _). j \<noteq> i) (running s), finished := finished s @ [i]\<rparr>
      = ?t\<lparr>out := []\<rparr>"
    by simp
  have "finish b (without_panics h) i (s\<lparr>out := []\<rparr>) = goroutine b (without_panics h) i v (?t\<lparr>out := []\<rparr>)"
    using Some unfolding swap [symmetric] by (simp add: finish_def)
  also have "\<dots> = (goroutine b h i v ?t)\<lparr>out := []\<rparr>"
    by (rule goroutine_without_panics)
  also have "\<dots> = (finish b h i s)\<lparr>out := []\<rparr>"
    using Some by (simp add: finish_def)
  finally show ?thesis .
qed

lemma dispatcher_out: "dispatcher b items (s\<lparr>out := x\<rparr>) = (dispatcher b items s)\<lparr>out := x\<rparr>"
  by (simp add: dispatcher_def limiter_wait_def after_wait_def outcome_def cancel_def
           split: pc.splits option.splits)

lemma step_without_panics:
  "step b items (without_panics h) e (s\<lparr>out := []\<rparr>) = (step b items h e s)\<lparr>out := []\<rparr>"
  by (cases e)
     (simp_all add: step_def dispatcher_out finish_without_panics cancel_out limiter_wait_def
               split: pc.splits option.splits)

lemma run_without_panics:
  "run b items (without_panics h) es (s\<lparr>out := []\<rparr>) = (run b items h es s)\<lparr>out := []\<rparr>"
  by (induction es arbitrary: s) (simp_all add: step_without_panics)

lemma init_out: "(init b ctx)\<lparr>out := []\<rparr> = init b ctx"
  by (simp add: init_def)
text \<open>
  C6. A handler call that panics changes nothing but \<^verbatim>\<open>out\<close>, where the recovered panic
  is printed with the item's index: the group's error, the group's context, \<^verbatim>\<open>errs\<close> and
  the dispatching thread are as before. And on every schedule \<^verbatim>\<open>Execute\<close> with a handler
  goes through the same states, up to \<^verbatim>\<open>out\<close>, as with the handler that returns
  \<^verbatim>\<open>nil\<close> where the first panics: the same items are dispatched, run and end, and
  the same value is returned.
\<close>

theorem C6_panic_is_no_failure:
  assumes "h (grp_ctx s) v = Panic r"
  shows "goroutine b h i v s = s\<lparr>out := out s @ [(i, r)]\<rparr>
       \<and> Execute b ctx items (without_panics h) sched
           = (Execute b ctx items h sched)\<lparr>out := []\<rparr>"
proof -
  have "run b items (without_panics h) sched (init b ctx) = (run b items h sched (init b ctx))\<lparr>out := []\<rparr>"
    using run_without_panics [of b items h sched "init b ctx"] by (simp add: init_out)
  then have "Execute b ctx items (without_panics h) sched = (Execute b ctx items h sched)\<lparr>out := []\<rparr>"
    by (simp add: Execute_def returned_empty_def)
  moreover have "goroutine b h i v s = s\<lparr>out := out s @ [(i, r)]\<rparr>"
    using assms by (simp add: goroutine_def)
  ultimately show ?thesis by simp
qed

text \<open>
  C6 at five items of which the fourth panics: all five handler calls end, \<^verbatim>\<open>Execute\<close>
  returns \<^verbatim>\<open>nil\<close>, and the panic is printed with index 3.
\<close>

theorem C6_panic_is_no_failure_witness:
  "(\<lambda>_ v. if v = 4 then Panic ''boom'' else Return None)
       (grp_ctx (Execute (NewBatchExecutor []) None [1, 2, 3, 4, 5 :: nat]
          (\<lambda>_ v. if v = 4 then Panic ''boom'' else Return None)
          [Run, Run, Run, Run, Run, Run, Run, Run, Run, Run])) 4 = Panic ''boom''
   \<and> goroutine (NewBatchExecutor []) (\<lambda>_ v. if v = 4 then Panic ''boom'' else Return None) 3 4
        (Execute (NewBatchExecutor []) None [1, 2, 3, 4, 5 :: nat]
          (\<lambda>_ v. if v = 4 then Panic ''boom'' else Return None)
          [Run, Run, Run, Run, Run, Run, Run, Run, Run, Run])
      = \<lparr>pc = LoopHead 5, grp_ctx = None, g_err = None, g_limit = 10,
         running = [(0, 1), (1, 2), (2, 3), (3, 4), (4, 5)], limiter = False, errs = [],
         out = [(3, ''boom'')], started = [0, 1, 2, 3, 4], finished = []\<rparr>
   \<and> Execute (NewBatchExecutor []) None [1, 2, 3, 4, 5 :: nat]
        (without_panics (\<lambda>_ v. if v = 4 then Panic ''boom'' else Return None))
        [Run, Run, Run, Run, Run, Run, Run, Run, Run, Run, Run, Finish 3, Finish 0, Finish 1, Finish 2, Finish 4, Run]
      = \<lparr>pc = Returned None, grp_ctx = Some Canceled, g_err = None, g_limit = 10,
         running = [], limiter = False, errs = [],
         out = [], started = [0, 1, 2, 3, 4], finished = [3, 0, 1, 2, 4]\<rparr>
   \<and> Execute (NewBatchExecutor []) None [1, 2, 3, 4, 5 :: nat]
        (\<lambda>_ v. if v = 4 then Panic ''boom'' else Return None)
        [Run, Run, Run, Run, Run, Run, Run, Run, Run, Run, Run, Finish 3, Finish 0, Finish 1, Finish 2, Finish 4, Run]
      = \<lparr>pc = Returned None, grp_ctx = Some Canceled, g_err = None, g_limit = 10,
         running = [], limiter = False, errs = [],
         out = [(3, ''boom'')], started = [0, 1, 2, 3, 4], finished = [3, 0, 1, 2, 4]\<rparr>"
proof -
  let ?b = "NewBatchExecutor []"
  let ?items = "[1, 2, 3, 4, 5 :: nat]"
  let ?h = "\<lambda>(_ :: error option) (v :: nat). if v = 4 then Panic ''boom'' else Return None"
  let ?es = "[Run, Run, Run, Run, Run, Run, Run, Run, Run, Run, Run, Finish 3, Finish 0, Finish 1, Finish 2, Finish 4, Run]"
  have s0: "Execute ?b None ?items ?h [Run, Run, Run, Run, Run, Run, Run, Run, Run, Run]
      = \<lparr>pc = LoopHead 5, grp_ctx = None, g_err = None, g_limit = 10,
         running = [(0, 1), (1, 2), (2, 3), (3, 4), (4, 5)], limiter = False, errs = [],
         out = [], started = [0, 1, 2, 3, 4], finished = []\<rparr>"
    by (simp add: exec_eval)
  have p: "?h (grp_ctx (Execute ?b None ?items ?h [Run, Run, Run, Run, Run, Run, Run, Run, Run, Run])) 4 = Panic ''boom''"
    by simp
  have s1: "Execute ?b None ?items ?h ?es
      = \<lparr>pc = Returned None, grp_ctx = Some Canceled, g_err = None, g_limit = 10,
         running = [], limiter = False, errs = [],
         out = [(3, ''boom'')], started = [0, 1, 2, 3, 4], finished = [3, 0, 1, 2, 4]\<rparr>"
    by (simp add: exec_eval)
  show ?thesis
    using C6_panic_is_no_failure [where h = ?h and v = 4 and r = "''boom''" and b = ?b and i = 3
        and s = "Execute ?b None ?items ?h [Run, Run, Run, Run, Run, Run, Run, Run, Run, Run]"
        and ctx = None and items = ?items and sched = ?es] p
    unfolding s0 s1 by simp
qed


section \<open>What Execute returns\<close>

lemma ret_inv_init: "ret_inv b (init b ctx)"
  by (simp add: ret_inv_def init_def)

lemma outcome_cancel [simp]: "outcome b (cancel e s) = outcome b s"
  by (simp add: outcome_def split: option.splits)

lemma outcome_pc [simp]: "outcome b (s\<lparr>pc := p\<rparr>) = outcome b s"
  by (simp add: outcome_def split: option.splits)

lemma ret_inv_cancel: "ret_inv b s \<Longrightarrow> ret_inv b (cancel e s)"
  by (auto simp: ret_inv_def split: pc.splits)

lemma ret_inv_finish: "ret_inv b s \<Longrightarrow> ret_inv b (finish b h i s)"
proof (cases "running s = []")
  case True
  then show "ret_inv b s \<Longrightarrow> ret_inv b (finish b h i s)" by simp
next
  case False
  then show "ret_inv b s \<Longrightarrow> ret_inv b (finish b h i s)"
    by (auto simp: ret_inv_def split: pc.splits)
qed

lemma ret_inv_dispatcher: "ret_inv b s \<Longrightarrow> ret_inv b (dispatcher b items s)"
  by (auto simp: ret_inv_def dispatcher_def limiter_wait_def after_wait_def split: pc.splits option.splits)

lemma ret_inv_step: "ret_inv b s \<Longrightarrow> ret_inv b (step b items h e s)"
  apply (cases e)
  apply (simp_all add: step_def ret_inv_dispatcher ret_inv_finish ret_inv_cancel)
  apply (auto simp: ret_inv_def limiter_wait_def split: pc.splits option.splits)
  done

lemma ret_inv_run: "ret_inv b s \<Longrightarrow> ret_inv b (run b items h es s)"
  by (rule run_invariant) (simp_all add: ret_inv_step)

lemma ret_inv_Execute: "ret_inv b (Execute b ctx items h es) \<or> Execute b ctx items h es = returned_empty"
  by (simp add: Execute_def ret_inv_run ret_inv_init)

lemma Execute_Returned:
  assumes "pc (Execute b ctx items h es) = Returned r"
  shows "(RateLimit b \<noteq> Inf \<and> (\<exists>i c. r = Some (RateLimiterError i c)))
       \<or> (running (Execute b ctx items h es) = [] \<and> r = outcome b (Execute b ctx items h es))"
  using ret_inv_Execute [of b ctx items h es] assms
  by (auto simp: ret_inv_def returned_empty_def outcome_def split: option.splits)


section \<open>Collect and continue\<close>

lemma ignore_goroutine: "IgnoreError b \<Longrightarrow> g_err (goroutine b h i v s) = g_err s \<and> grp_ctx (goroutine b h i v s) = grp_ctx s"
  by (simp add: goroutine_def split: handler_result.splits option.splits)

lemma ignore_finish: "IgnoreError b \<Longrightarrow> g_err (finish b h i s) = g_err s \<and> grp_ctx (finish b h i s) = grp_ctx s"
  by (simp add: finish_def ignore_goroutine split: option.splits)

lemma ignore_step: "IgnoreError b \<Longrightarrow> g_err s = None \<Longrightarrow> g_err (step b items h e s) = None"
  by (cases e)
     (simp_all add: step_def ignore_finish dispatcher_def limiter_wait_def after_wait_def
               split: pc.splits option.splits)

lemma ignore_run: "IgnoreError b \<Longrightarrow> g_err s = None \<Longrightarrow> g_err (run b items h es s) = None"
  by (rule run_invariant) (simp_all add: ignore_step)

lemma ignore_Execute: "IgnoreError b \<Longrightarrow> g_err (Execute b ctx items h es) = None"
  by (simp add: Execute_def returned_empty_def ignore_run init_def)
lemma ignore_outcome: "IgnoreError b \<Longrightarrow> g_err s = None \<Longrightarrow> outcome b s = aggregate (errs s)"
  by (simp add: outcome_def aggregate_def)

lemma run_Returned_errs:
  "pc s = Returned r \<Longrightarrow> running s = [] \<Longrightarrow> errs (run b items h es s) = errs s \<and> running (run b items h es s) = []"
proof (induction es arbitrary: s)
  case Nil
  then show ?case by simp
next
  case (Cons e es)
  have "pc (step b items h e s) = Returned r \<and> running (step b items h e s) = [] \<and> errs (step b items h e s) = errs s"
    using Cons.prems by (cases e) (simp_all add: step_def dispatcher_def)
  with Cons.IH [of "step b items h e s"] show ?case by simp
qed
lemma recorded_Suc:
  "recorded h items (Suc k)
     = recorded h items k @ (case h None (items ! k) of Return (Some err) \<Rightarrow> [ItemFailed k err] | _ \<Rightarrow> [])"
  by (simp add: recorded_def)

lemma recovered_Suc:
  "recovered h items (Suc k)
     = recovered h items k @ (case h None (items ! k) of Panic r \<Rightarrow> [(k, r)] | _ \<Rightarrow> [])"
  by (simp add: recovered_def)

lemma served_0: "served b h items 0 = init b None"
  by (simp add: served_def init_def recorded_def recovered_def)

lemma served_step:
  assumes "IgnoreError b" and "Concurrency b < 0 \<or> 1 \<le> Concurrency b" and "1 \<le> Burst b"
    and "k < length items"
  shows "run b items h (item_events b k) (served b h items k) = served b h items (Suc k)"
proof (cases "h None (items ! k)")
  case (Panic r)
  with assms show ?thesis
    by (auto simp: item_events_def served_def step_def dispatcher_def limiter_wait_def finish_def
          goroutine_def recorded_Suc recovered_Suc)
next
  case (Return eo)
  with assms show ?thesis
    by (cases eo)
       (auto simp: item_events_def served_def step_def dispatcher_def limiter_wait_def finish_def
          goroutine_def recorded_Suc recovered_Suc)
qed

lemma served_run:
  assumes "IgnoreError b" and "Concurrency b < 0 \<or> 1 \<le> Concurrency b" and "1 \<le> Burst b"
  shows "k \<le> length items \<Longrightarrow>
    run b items h (concat (map (item_events b) [0..<k])) (init b None) = served b h items k"
proof (induction k)
  case 0
  then show ?case by (simp add: served_0)
next
  case (Suc k)
  then have "k < length items" by simp
  from served_step [OF assms this, of h] Suc show ?case
    by (simp add: run_append)
qed

lemma served_end:
  assumes "IgnoreError b"
  shows "run b items h [Run, Run] (served b h items (length items))
    = (served b h items (length items))
        \<lparr>pc := Returned (aggregate (recorded h items (length items))), grp_ctx := Some Canceled\<rparr>"
  using assms
  by (simp add: served_def step_def dispatcher_def after_wait_def outcome_def cancel_def aggregate_def)

lemma one_by_one_run:
  assumes "IgnoreError b" and "Concurrency b < 0 \<or> 1 \<le> Concurrency b" and "1 \<le> Burst b"
  shows "run b items h (one_by_one b (length items)) (init b None)
    = (served b h items (length items))
        \<lparr>pc := Returned (aggregate (recorded h items (length items))), grp_ctx := Some Canceled\<rparr>"
  using served_run [OF assms, of "length items" items h] served_end [OF assms(1), of items h]
  by (simp add: one_by_one_def run_append)

lemma one_by_one_Execute:
  assumes "IgnoreError b" and "Concurrency b < 0 \<or> 1 \<le> Concurrency b" and "1 \<le> Burst b"
  shows "started (Execute b None items h (one_by_one b (length items))) = [0..<length items]
       \<and> finished (Execute b None items h (one_by_one b (length items))) = [0..<length items]
       \<and> running (Execute b None items h (one_by_one b (length items))) = []
       \<and> errs (Execute b None items h (one_by_one b (length items))) = recorded h items (length items)
       \<and> pc (Execute b None items h (one_by_one b (length items)))
           = Returned (aggregate (recorded h items (length items)))"
proof (cases "items = []")
  case True
  then show ?thesis
    by (simp add: Execute_def returned_empty_def recorded_def aggregate_def)
next
  case False
  with one_by_one_run [OF assms, of items h] show ?thesis
    by (simp add: Execute_def served_def)
qed

lemma finish_frees_slot:
  assumes "map_of (running s) i = Some v"
  shows "length (running (finish b h i s)) < length (running s)"
proof -
  from assms have "(i, v) \<in> set (running s)" by (rule map_of_SomeD)
  then have "length (filter (\<lambda>(j, _). j \<noteq> i) (running s)) < length (running s)"
    by (rule length_filter_less) simp
  with assms show ?thesis by (simp add: finish_def)
qed
text \<open>
  C3, as the claim has it, fails when a rate limit is set: the handler of item 0 fails and
  is recorded, every goroutine has ended, and the caller cancels the context while the
  dispatching thread is blocked in \<^verbatim>\<open>limiter.Wait\<close> for item 1. \<^verbatim>\<open>Execute\<close> returns the
  error of line 111, neither \<^verbatim>\<open>nil\<close> nor the count and first element of \<^verbatim>\<open>errs\<close>, which is
  not empty.
\<close>

theorem C3_recorded_failures_not_reported:
  "IgnoreError (NewBatchExecutor [WithIgnoreError True, WithRateLimit 1])
   \<and> started (Execute (NewBatchExecutor [WithIgnoreError True, WithRateLimit 1]) None [''a'', ''b'']
        (\<lambda>_ v. if v = ''a'' then Return (Some (ErrorString ''boom'')) else Return None)
        [Run, Run, Token, Run, Finish 0, Run, Run, Cancel Canceled, Run]) = [0]
   \<and> finished (Execute (NewBatchExecutor [WithIgnoreError True, WithRateLimit 1]) None [''a'', ''b'']
        (\<lambda>_ v. if v = ''a'' then Return (Some (ErrorString ''boom'')) else Return None)
        [Run, Run, Token, Run, Finish 0, Run, Run, Cancel Canceled, Run]) = [0]
   \<and> running (Execute (NewBatchExecutor [WithIgnoreError True, WithRateLimit 1]) None [''a'', ''b'']
        (\<lambda>_ v. if v = ''a'' then Return (Some (ErrorString ''boom'')) else Return None)
        [Run, Run, Token, Run, Finish 0, Run, Run, Cancel Canceled, Run]) = []
   \<and> errs (Execute (NewBatchExecutor [WithIgnoreError True, WithRateLimit 1]) None [''a'', ''b'']
        (\<lambda>_ v. if v = ''a'' then Return (Some (ErrorString ''boom'')) else Return None)
        [Run, Run, Token, Run, Finish 0, Run, Run, Cancel Canceled, Run])
       = [ItemFailed 0 (ErrorString ''boom'')]
   \<and> pc (Execute (NewBatchExecutor [WithIgnoreError True, WithRateLimit 1]) None [''a'', ''b'']
        (\<lambda>_ v. if v = ''a'' then Return (Some (ErrorString ''boom'')) else Return None)
        [Run, Run, Token, Run, Finish 0, Run, Run, Cancel Canceled, Run])
       = Returned (Some (RateLimiterError 1 Canceled))"
  by (simp add: exec_eval)

text \<open>
  C3, amended. With \<^verbatim>\<open>IgnoreError\<close> set:
  \<^item> a handler call for item \<open>i\<close> that returns an error \<open>err\<close> appends \<open>ItemFailed i err\<close> to
    \<^verbatim>\<open>errs\<close> (one step, as under \<^verbatim>\<open>errLock\<close>) and changes nothing else but the goroutine's
    end: the group has no error and its context is not cancelled;
  \<^item> dispatch goes on after it: right after such a call the dispatching thread, at the
    loop's check for an index \<open>k\<close> of the slice with the context not done, goes on to the
    limiter or to \<^verbatim>\<open>g.Go\<close> for \<open>k\<close>; and in \<^verbatim>\<open>g.Go\<close> for \<open>m\<close>, it starts item \<open>m\<close> in the slot
    the call has freed;
  \<^item> when the thread is in \<^verbatim>\<open>g.Wait()\<close> and no goroutine is left, its next step returns
    \<^verbatim>\<open>nil\<close> if \<^verbatim>\<open>errs\<close> is empty, and otherwise the error with the length of \<^verbatim>\<open>errs\<close> and
    its first element, the one appended first; \<^verbatim>\<open>errs\<close> does not change afterwards;
  \<^item> every value \<^verbatim>\<open>Execute\<close> returns is that one, with no goroutine left, or, only when
    a rate limit is set, the error of a failed \<^verbatim>\<open>limiter.Wait\<close>;
  \<^item> with a limit of at least one goroutine (or none) and a burst of at least 1, on the
    schedule that handles the items one after the other under a context that is not
    done, every item of the slice is handed to \<^verbatim>\<open>g.Go\<close> once and ends once, in the order
    of the slice, whatever fails; \<^verbatim>\<open>errs\<close> holds the wrapped error of each item whose
    handler returns one, and \<^verbatim>\<open>Execute\<close> returns \<^verbatim>\<open>nil\<close> if there is none and else their
    count and the first.
\<close>

theorem C3_collect_and_continue:
  assumes "IgnoreError b"
  shows "(map_of (running s) i = Some v \<and> h (grp_ctx s) v = Return (Some err) \<longrightarrow>
            finish b h i s
              = s\<lparr>running := filter (\<lambda>(j, _). j \<noteq> i) (running s), finished := finished s @ [i],
                   errs := errs s @ [ItemFailed i err]\<rparr>)
       \<and> (map_of (running t) j = Some w \<and> h (grp_ctx t) w = Return (Some err') \<and> grp_ctx t = None
            \<and> pc t = LoopHead k \<and> k < length items \<longrightarrow>
            pc (step b items h Run (finish b h j t)) = (if limiter t then LimiterWait k else GroupGo k))
       \<and> (map_of (running u) l = Some x \<and> h (grp_ctx u) x = Return (Some err'') \<and> pc u = GroupGo m
            \<and> (g_limit u < 0 \<or> int (length (running u)) \<le> g_limit u) \<longrightarrow>
            started (step b items h Run (finish b h l u)) = started u @ [m]
            \<and> pc (step b items h Run (finish b h l u)) = LoopHead (Suc m))
       \<and> (pc (Execute b ctx items h es1) = GroupWait \<and> running (Execute b ctx items h es1) = [] \<longrightarrow>
            pc (Execute b ctx items h (es1 @ Run # es2))
              = Returned (if errs (Execute b ctx items h es1) = [] then None
                          else Some (BatchFinished (length (errs (Execute b ctx items h es1)))
                                                   (hd (errs (Execute b ctx items h es1)))))
            \<and> errs (Execute b ctx items h (es1 @ Run # es2)) = errs (Execute b ctx items h es1))
       \<and> (pc (Execute b ctx items h sched) = Returned r \<longrightarrow>
            (RateLimit b \<noteq> Inf \<and> (\<exists>n c. r = Some (RateLimiterError n c)))
            \<or> (running (Execute b ctx items h sched) = []
                \<and> r = (if errs (Execute b ctx items h sched) = [] then None
                        else Some (BatchFinished (length (errs (Execute b ctx items h sched)))
                                                 (hd (errs (Execute b ctx items h sched)))))))
       \<and> ((Concurrency b < 0 \<or> 1 \<le> Concurrency b) \<and> 1 \<le> Burst b \<longrightarrow>
            started (Execute b None items h (one_by_one b (length items))) = [0..<length items]
            \<and> finished (Execute b None items h (one_by_one b (length items))) = [0..<length items]
            \<and> running (Execute b None items h (one_by_one b (length items))) = []
            \<and> errs (Execute b None items h (one_by_one b (length items))) = recorded h items (length items)
            \<and> pc (Execute b None items h (one_by_one b (length items)))
                = Returned (if recorded h items (length items) = [] then None
                            else Some (BatchFinished (length (recorded h items (length items)))
                                                     (hd (recorded h items (length items))))))"
proof (intro conjI impI)
  assume "map_of (running s) i = Some v \<and> h (grp_ctx s) v = Return (Some err)"
  with assms show "finish b h i s
      = s\<lparr>running := filter (\<lambda>(j, _). j \<noteq> i) (running s), finished := finished s @ [i],
           errs := errs s @ [ItemFailed i err]\<rparr>"
    by (simp add: finish_def goroutine_def)
next
  assume a: "map_of (running t) j = Some w \<and> h (grp_ctx t) w = Return (Some err') \<and> grp_ctx t = None
            \<and> pc t = LoopHead k \<and> k < length items"
  with assms have "grp_ctx (finish b h j t) = None"
    by (simp add: ignore_finish)
  with a show "pc (step b items h Run (finish b h j t)) = (if limiter t then LimiterWait k else GroupGo k)"
    by (simp add: step_def dispatcher_def)
next
  assume a: "map_of (running u) l = Some x \<and> h (grp_ctx u) x = Return (Some err'') \<and> pc u = GroupGo m
            \<and> (g_limit u < 0 \<or> int (length (running u)) \<le> g_limit u)"
  then have "length (running (finish b h l u)) < length (running u)"
    by (simp add: finish_frees_slot)
  with a have free: "g_limit u < 0 \<or> int (length (running (finish b h l u))) < g_limit u"
    by auto
  with a show "started (step b items h Run (finish b h l u)) = started u @ [m]"
    and "pc (step b items h Run (finish b h l u)) = LoopHead (Suc m)"
    by (simp_all add: step_def dispatcher_def)
next
  let ?s = "Execute b ctx items h es1"
  assume w: "pc ?s = GroupWait \<and> running ?s = []"
  then have ne: "items \<noteq> []" by (auto simp: Execute_def returned_empty_def)
  have out: "outcome b ?s = aggregate (errs ?s)"
    using assms by (simp add: ignore_outcome ignore_Execute)
  have st: "step b items h Run ?s = (cancel Canceled ?s)\<lparr>pc := Returned (aggregate (errs ?s))\<rparr>"
    using w by (simp add: step_def dispatcher_def after_wait_def out)
  have "pc (step b items h Run ?s) = Returned (aggregate (errs ?s))"
    and "running (step b items h Run ?s) = []"
    and "errs (step b items h Run ?s) = errs ?s"
    using w by (simp_all add: st)
  with run_Returned [of "step b items h Run ?s" "aggregate (errs ?s)" b items h es2]
    run_Returned_errs [of "step b items h Run ?s" "aggregate (errs ?s)" b items h es2]
  have "pc (run b items h es2 (step b items h Run ?s)) = Returned (aggregate (errs ?s))"
    and "errs (run b items h es2 (step b items h Run ?s)) = errs ?s"
    by simp_all
  then show "pc (Execute b ctx items h (es1 @ Run # es2))
              = Returned (if errs ?s = [] then None
                          else Some (BatchFinished (length (errs ?s)) (hd (errs ?s))))"
    and "errs (Execute b ctx items h (es1 @ Run # es2)) = errs ?s"
    by (simp_all add: Execute_append_step [OF ne] aggregate_def)
next
  let ?s = "Execute b ctx items h sched"
  assume "pc ?s = Returned r"
  from Execute_Returned [OF this] assms
  show "(RateLimit b \<noteq> Inf \<and> (\<exists>n c. r = Some (RateLimiterError n c)))
            \<or> (running ?s = []
                \<and> r = (if errs ?s = [] then None
                        else Some (BatchFinished (length (errs ?s)) (hd (errs ?s)))))"
    using ignore_outcome [OF assms ignore_Execute [OF assms], of ctx items h sched]
    by (auto simp: aggregate_def)
next
  assume "(Concurrency b < 0 \<or> 1 \<le> Concurrency b) \<and> 1 \<le> Burst b"
  then have c: "Concurrency b < 0 \<or> 1 \<le> Concurrency b" and bu: "1 \<le> Burst b" by simp_all
  from one_by_one_Execute [OF assms c bu, of items h]
  show "started (Execute b None items h (one_by_one b (length items))) = [0..<length items]"
    and "finished (Execute b None items h (one_by_one b (length items))) = [0..<length items]"
    and "running (Execute b None items h (one_by_one b (length items))) = []"
    and "errs (Execute b None items h (one_by_one b (length items))) = recorded h items (length items)"
    and "pc (Execute b None items h (one_by_one b (length items)))
                = Returned (if recorded h items (length items) = [] then None
                            else Some (BatchFinished (length (recorded h items (length items)))
                                                     (hd (recorded h items (length items)))))"
    by (simp_all add: aggregate_def)
qed

text \<open>
  C3, amended, at ten items of which those at 2, 5 and 7 fail. With all ten running
  and item 7 ending first, the error returned counts 3 failures and wraps the one of
  item 7. After the failure of item 2 the thread goes on to item 3. With one goroutine at
  a time, handled one after the other, all ten are dispatched and end, and the error
  returned counts 3 failures and wraps the one of item 2.
\<close>

theorem C3_collect_and_continue_witness:
  "IgnoreError (NewBatchExecutor [WithIgnoreError True])
   \<and> map_of (running (Execute (NewBatchExecutor [WithIgnoreError True]) None [0, 1, 2, 3, 4, 5, 6, 7, 8, 9 :: nat]
        (\<lambda>_ v. if v \<in> {2, 5, 7} then Return (Some (ErrorString ''failed'')) else Return None)
        [Run, Run, Run, Run, Run, Run, Run, Run, Run, Run, Run, Run, Run, Run, Run, Run, Run, Run, Run, Run, Run])) 7
     = Some 7
   \<and> finish (NewBatchExecutor [WithIgnoreError True])
        (\<lambda>_ v. if v \<in> {2, 5, 7} then Return (Some (ErrorString ''failed'')) else Return None) 7
        (Execute (NewBatchExecutor [WithIgnoreError True]) None [0, 1, 2, 3, 4, 5, 6, 7, 8, 9 :: nat]
          (\<lambda>_ v. if v \<in> {2, 5, 7} then Return (Some (ErrorString ''failed'')) else Return None)
          [Run, Run, Run, Run, Run, Run, Run, Run, Run, Run, Run, Run, Run, Run, Run, Run, Run, Run, Run, Run, Run])
     = \<lparr>pc = GroupWait, grp_ctx = None, g_err = None, g_limit = 10,
        running = [(0, 0), (1, 1), (2, 2), (3, 3), (4, 4), (5, 5), (6, 6), (8, 8), (9, 9)],
        limiter = False, errs = [ItemFailed 7 (ErrorString ''failed'')], out = [],
        started = [0, 1, 2, 3, 4, 5, 6, 7, 8, 9], finished = [7]\<rparr>
   \<and> Execute (NewBatchExecutor [WithIgnoreError True]) None [0, 1, 2, 3, 4, 5, 6, 7, 8, 9 :: nat]
        (\<lambda>_ v. if v \<in> {2, 5, 7} then Return (Some (ErrorString ''failed'')) else Return None)
        [Run, Run, Run, Run, Run, Run]
     = \<lparr>pc = LoopHead 3, grp_ctx = None, g_err = None, g_limit = 10,
        running = [(0, 0), (1, 1), (2, 2)], limiter = False, errs = [], out = [],
        started = [0, 1, 2], finished = []\<rparr>
   \<and> pc (step (NewBatchExecutor [WithIgnoreError True]) [0, 1, 2, 3, 4, 5, 6, 7, 8, 9 :: nat]
        (\<lambda>_ v. if v \<in> {2, 5, 7} then Return (Some (ErrorString ''failed'')) else Return None) Run
        (finish (NewBatchExecutor [WithIgnoreError True])
          (\<lambda>_ v. if v \<in> {2, 5, 7} then Return (Some (ErrorString ''failed'')) else Return None) 2
          (Execute (NewBatchExecutor [WithIgnoreError True]) None [0, 1, 2, 3, 4, 5, 6, 7, 8, 9 :: nat]
            (\<lambda>_ v. if v \<in> {2, 5, 7} then Return (Some (ErrorString ''failed'')) else Return None)
            [Run, Run, Run, Run, Run, Run])))
     = GroupGo 3
   \<and> Execute (NewBatchExecutor [WithIgnoreError True]) None [0, 1, 2, 3, 4, 5, 6, 7, 8, 9 :: nat]
        (\<lambda>_ v. if v \<in> {2, 5, 7} then Return (Some (ErrorString ''failed'')) else Return None)
        [Run, Run, Run, Run, Run, Run, Run]
     = \<lparr>pc = GroupGo 3, grp_ctx = None, g_err = None, g_limit = 10,
        running = [(0, 0), (1, 1), (2, 2)], limiter = False, errs = [], out = [],
        started = [0, 1, 2], finished = []\<rparr>
   \<and> started (step (NewBatchExecutor [WithIgnoreError True]) [0, 1, 2, 3, 4, 5, 6, 7, 8, 9 :: nat]
        (\<lambda>_ v. if v \<in> {2, 5, 7} then Return (Some (ErrorString ''failed'')) else Return None) Run
        (finish (NewBatchExecutor [WithIgnoreError True])
          (\<lambda>_ v. if v \<in> {2, 5, 7} then Return (Some (ErrorString ''failed'')) else Return None) 2
          (Execute (NewBatchExecutor [WithIgnoreError True]) None [0, 1, 2, 3, 4, 5, 6, 7, 8, 9 :: nat]
            (\<lambda>_ v. if v \<in> {2, 5, 7} then Return (Some (ErrorString ''failed'')) else Return None)
            [Run, Run, Run, Run, Run, Run, Run])))
     = [0, 1, 2, 3]
   \<and> pc (Execute (NewBatchExecutor [WithIgnoreError True]) None [0, 1, 2, 3, 4, 5, 6, 7, 8, 9 :: nat]
        (\<lambda>_ v. if v \<in> {2, 5, 7} then Return (Some (ErrorString ''failed'')) else Return None)
        [Run, Run, Run, Run, Run, Run, Run, Run, Run, Run, Run, Run, Run, Run, Run, Run, Run, Run, Run, Run, Run,
         Finish 7, Finish 0, Finish 1, Finish 2, Finish 3, Finish 4, Finish 5, Finish 6, Finish 8, Finish 9])
     = GroupWait
   \<and> running (Execute (NewBatchExecutor [WithIgnoreError True]) None [0, 1, 2, 3, 4, 5, 6, 7, 8, 9 :: nat]
        (\<lambda>_ v. if v \<in> {2, 5, 7} then Return (Some (ErrorString ''failed'')) else Return None)
        [Run, Run, Run, Run, Run, Run, Run, Run, Run, Run, Run, Run, Run, Run, Run, Run, Run, Run, Run, Run, Run,
         Finish 7, Finish 0, Finish 1, Finish 2, Finish 3, Finish 4, Finish 5, Finish 6, Finish 8, Finish 9])
     = []
   \<and> finished (Execute (NewBatchExecutor [WithIgnoreError True]) None [0, 1, 2, 3, 4, 5, 6, 7, 8, 9 :: nat]
        (\<lambda>_ v. if v \<in> {2, 5, 7} then Return (Some (ErrorString ''failed'')) else Return None)
        [Run, Run, Run, Run, Run, Run, Run, Run, Run, Run, Run, Run, Run, Run, Run, Run, Run, Run, Run, Run, Run,
         Finish 7, Finish 0, Finish 1, Finish 2, Finish 3, Finish 4, Finish 5, Finish 6, Finish 8, Finish 9])
     = [7, 0, 1, 2, 3, 4, 5, 6, 8, 9]
   \<and> pc (Execute (NewBatchExecutor [WithIgnoreError True]) None [0, 1, 2, 3, 4, 5, 6, 7, 8, 9 :: nat]
        (\<lambda>_ v. if v \<in> {2, 5, 7} then Return (Some (ErrorString ''failed'')) else Return None)
        ([Run, Run, Run, Run, Run, Run, Run, Run, Run, Run, Run, Run, Run, Run, Run, Run, Run, Run, Run, Run, Run,
          Finish 7, Finish 0, Finish 1, Finish 2, Finish 3, Finish 4, Finish 5, Finish 6, Finish 8, Finish 9]
         @ Run # []))
     = Returned (Some (BatchFinished 3 (ItemFailed 7 (ErrorString ''failed''))))
   \<and> running (Execute (NewBatchExecutor [WithIgnoreError True]) None [0, 1, 2, 3, 4, 5, 6, 7, 8, 9 :: nat]
        (\<lambda>_ v. if v \<in> {2, 5, 7} then Return (Some (ErrorString ''failed'')) else Return None)
        ([Run, Run, Run, Run, Run, Run, Run, Run, Run, Run, Run, Run, Run, Run, Run, Run, Run, Run, Run, Run, Run,
          Finish 7, Finish 0, Finish 1, Finish 2, Finish 3, Finish 4, Finish 5, Finish 6, Finish 8, Finish 9]
         @ Run # []))
     = []
   \<and> 1 \<le> Concurrency (NewBatchExecutor [WithIgnoreError True, WithConcurrency 1])
   \<and> 1 \<le> Burst (NewBatchExecutor [WithIgnoreError True, WithConcurrency 1])
   \<and> started (Execute (NewBatchExecutor [WithIgnoreError True, WithConcurrency 1]) None
        [0, 1, 2, 3, 4, 5, 6, 7, 8, 9 :: nat]
        (\<lambda>_ v. if v \<in> {2, 5, 7} then Return (Some (ErrorString ''failed'')) else Return None)
        (one_by_one (NewBatchExecutor [WithIgnoreError True, WithConcurrency 1])
           (length [0, 1, 2, 3, 4, 5, 6, 7, 8, 9 :: nat])))
     = [0, 1, 2, 3, 4, 5, 6, 7, 8, 9]
   \<and> finished (Execute (NewBatchExecutor [WithIgnoreError True, WithConcurrency 1]) None
        [0, 1, 2, 3, 4, 5, 6, 7, 8, 9 :: nat]
        (\<lambda>_ v. if v \<in> {2, 5, 7} then Return (Some (ErrorString ''failed'')) else Return None)
        (one_by_one (NewBatchExecutor [WithIgnoreError True, WithConcurrency 1])
           (length [0, 1, 2, 3, 4, 5, 6, 7, 8, 9 :: nat])))
     = [0, 1, 2, 3, 4, 5, 6, 7, 8, 9]
   \<and> pc (Execute (NewBatchExecutor [WithIgnoreError True, WithConcurrency 1]) None
        [0, 1, 2, 3, 4, 5, 6, 7, 8, 9 :: nat]
        (\<lambda>_ v. if v \<in> {2, 5, 7} then Return (Some (ErrorString ''failed'')) else Return None)
        (one_by_one (NewBatchExecutor [WithIgnoreError True, WithConcurrency 1])
           (length [0, 1, 2, 3, 4, 5, 6, 7, 8, 9 :: nat])))
     = Returned (Some (BatchFinished 3 (ItemFailed 2 (ErrorString ''failed''))))"
proof -
  let ?b = "NewBatchExecutor [WithIgnoreError True]"
  let ?c = "NewBatchExecutor [WithIgnoreError True, WithConcurrency 1]"
  let ?items = "[0, 1, 2, 3, 4, 5, 6, 7, 8, 9 :: nat]"
  let ?h = "\<lambda>(_ :: error option) (v :: nat). if v \<in> {2, 5, 7} then Return (Some (ErrorString ''failed'')) else Return None"
  let ?pre = "[Run, Run, Run, Run, Run, Run, Run, Run, Run, Run, Run, Run, Run, Run, Run, Run, Run, Run, Run, Run, Run]"
  let ?es = "[Run, Run, Run, Run, Run, Run, Run, Run, Run, Run, Run, Run, Run, Run, Run, Run, Run, Run, Run, Run, Run,
         Finish 7, Finish 0, Finish 1, Finish 2, Finish 3, Finish 4, Finish 5, Finish 6, Finish 8, Finish 9]"
  have b: "IgnoreError ?b" "RateLimit ?b = Inf"
    by (simp_all add: NewBatchExecutor_def WithIgnoreError_def default_config_def)
  have c: "IgnoreError ?c" "1 \<le> Concurrency ?c" "1 \<le> Burst ?c"
    by (simp_all add: NewBatchExecutor_def WithIgnoreError_def WithConcurrency_def default_config_def)
  have s0: "Execute ?b None ?items ?h ?pre
      = \<lparr>pc = GroupWait, grp_ctx = None, g_err = None, g_limit = 10,
         running = [(0, 0), (1, 1), (2, 2), (3, 3), (4, 4), (5, 5), (6, 6), (7, 7), (8, 8), (9, 9)],
         limiter = False, errs = [], out = [],
         started = [0, 1, 2, 3, 4, 5, 6, 7, 8, 9], finished = []\<rparr>"
    by (simp add: exec_eval)
  have t: "Execute ?b None ?items ?h [Run, Run, Run, Run, Run, Run]
      = \<lparr>pc = LoopHead 3, grp_ctx = None, g_err = None, g_limit = 10,
        running = [(0, 0), (1, 1), (2, 2)], limiter = False, errs = [], out = [],
        started = [0, 1, 2], finished = []\<rparr>"
    by (simp add: exec_eval)
  have u: "Execute ?b None ?items ?h [Run, Run, Run, Run, Run, Run, Run]
      = \<lparr>pc = GroupGo 3, grp_ctx = None, g_err = None, g_limit = 10,
        running = [(0, 0), (1, 1), (2, 2)], limiter = False, errs = [], out = [],
        started = [0, 1, 2], finished = []\<rparr>"
    by (simp add: exec_eval)
  have s: "Execute ?b None ?items ?h ?es
      = \<lparr>pc = GroupWait, grp_ctx = None, g_err = None, g_limit = 10, running = [], limiter = False,
         errs = [ItemFailed 7 (ErrorString ''failed''), ItemFailed 2 (ErrorString ''failed''),
                 ItemFailed 5 (ErrorString ''failed'')],
         out = [], started = [0, 1, 2, 3, 4, 5, 6, 7, 8, 9], finished = [7, 0, 1, 2, 3, 4, 5, 6, 8, 9]\<rparr>"
    by (simp add: exec_eval)
  have r: "pc (Execute ?b None ?items ?h (?es @ Run # []))
      = Returned (Some (BatchFinished 3 (ItemFailed 7 (ErrorString ''failed''))))"
    by (simp add: exec_eval)
  have rec: "recorded ?h ?items (length ?items)
      = [ItemFailed 2 (ErrorString ''failed''), ItemFailed 5 (ErrorString ''failed''),
         ItemFailed 7 (ErrorString ''failed'')]"
    by code_simp
  have upt: "[0..<length ?items] = [0, 1, 2, 3, 4, 5, 6, 7, 8, 9]"
    by code_simp
  show ?thesis
    using C3_collect_and_continue [OF b(1), where ctx = None and items = ?items and h = ?h
        and ?es1.0 = ?es and ?es2.0 = "[]" and s = "Execute ?b None ?items ?h ?pre" and i = 7 and v = 7
        and err = "ErrorString ''failed''" and sched = "?es @ Run # []"
        and r = "Some (BatchFinished 3 (ItemFailed 7 (ErrorString ''failed'')))"
        and t = "Execute ?b None ?items ?h [Run, Run, Run, Run, Run, Run]" and j = 2 and w = 2
        and err' = "ErrorString ''failed''" and k = 3
        and u = "Execute ?b None ?items ?h [Run, Run, Run, Run, Run, Run, Run]" and l = 2 and x = 2
        and err'' = "ErrorString ''failed''" and m = 3]
      C3_collect_and_continue [OF c(1), where items = ?items and h = ?h]
      b c r
    unfolding s s0 t u rec upt by simp
qed


section \<open>Fail fast\<close>

lemma g_err_step: "g_err s = Some err \<Longrightarrow> g_err (step b items h e s) = Some err"
  by (cases e)
     (simp_all add: step_def dispatcher_def limiter_wait_def after_wait_def finish_def goroutine_def
               split: pc.splits option.splits handler_result.splits)

lemma g_err_run: "g_err s = Some err \<Longrightarrow> g_err (run b items h es s) = Some err"
  by (rule run_invariant) (simp_all add: g_err_step)
lemma halted_step: "halted i st s \<Longrightarrow> halted i st (step b items h e s)"
  by (cases e)
     (auto simp: halted_def step_def dispatcher_def after_wait_def finish_def goroutine_def
           split: option.splits handler_result.splits)

lemma halted_run: "halted i st s \<Longrightarrow> halted i st (run b items h es s)"
  by (rule run_invariant) (simp_all add: halted_step)
lemma running_step:
  "(j, v) \<in> set (running s) \<Longrightarrow> e \<noteq> Finish j \<Longrightarrow> (j, v) \<in> set (running (step b items h e s))"
  by (cases e)
     (auto simp: step_def dispatcher_def limiter_wait_def after_wait_def finish_def
           split: pc.splits option.splits)
text \<open>
  C4, as the claim has it, fails when a rate limit is set: the handler of item 0 fails
  while the dispatching thread is blocked in \<^verbatim>\<open>limiter.Wait\<close> for item 1; the group keeps
  that failure and cancels its context, the wait fails, and \<^verbatim>\<open>Execute\<close> returns the error
  of line 111, not the failure the group observed first.
\<close>

theorem C4_first_failure_not_returned:
  "\<not> IgnoreError (NewBatchExecutor [WithRateLimit 1])
   \<and> g_err (Execute (NewBatchExecutor [WithRateLimit 1]) None [''a'', ''b'']
        (\<lambda>_ v. if v = ''a'' then Return (Some (ErrorString ''boom'')) else Return None)
        [Run, Run, Token, Run, Run, Run, Finish 0, Run])
     = Some (ErrorString ''boom'')
   \<and> pc (Execute (NewBatchExecutor [WithRateLimit 1]) None [''a'', ''b'']
        (\<lambda>_ v. if v = ''a'' then Return (Some (ErrorString ''boom'')) else Return None)
        [Run, Run, Token, Run, Run, Run, Finish 0, Run])
     = Returned (Some (RateLimiterError 1 Canceled))"
  by (simp add: exec_eval)

text \<open>
  C4, amended. Without \<^verbatim>\<open>IgnoreError\<close>:
  \<^item> the first handler call that returns an error gives it to the group and cancels the
    group's context; of the running goroutines only the one that ended is gone;
  \<^item> once the loop's check sees the context done, nothing more is handed to \<^verbatim>\<open>g.Go\<close>,
    whatever happens afterwards;
  \<^item> a running goroutine stays running through every event but its own end;
  \<^item> once the group has its first error, a value that \<^verbatim>\<open>Execute\<close> returns is that error, or,
    only when a rate limit is set, the error of a failed \<^verbatim>\<open>limiter.Wait\<close>;
  \<^item> when the thread is in \<^verbatim>\<open>g.Wait()\<close>, no goroutine is left and the group has an error,
    its next step returns that error.
\<close>

theorem C4_fail_fast:
  assumes "\<not> IgnoreError b"
  shows "(map_of (running s) i = Some v \<and> h (grp_ctx s) v = Return (Some err) \<and> g_err s = None \<longrightarrow>
            finish b h i s
              = s\<lparr>running := filter (\<lambda>(j, _). j \<noteq> i) (running s), finished := finished s @ [i],
                   g_err := Some err,
                   grp_ctx := Some (case grp_ctx s of None \<Rightarrow> Canceled | Some c \<Rightarrow> c)\<rparr>)
       \<and> (pc (Execute b ctx items h es1) = LoopHead k \<and> grp_ctx (Execute b ctx items h es1) \<noteq> None \<longrightarrow>
            started (Execute b ctx items h (es1 @ es2)) = started (Execute b ctx items h es1))
       \<and> ((j, w) \<in> set (running s) \<and> e \<noteq> Finish j \<longrightarrow> (j, w) \<in> set (running (step b items h e s)))
       \<and> (g_err (Execute b ctx items h es1) = Some err' \<and> pc (Execute b ctx items h (es1 @ es2)) = Returned r \<longrightarrow>
            r = Some err' \<or> (RateLimit b \<noteq> Inf \<and> (\<exists>n c. r = Some (RateLimiterError n c))))
       \<and> (pc (Execute b ctx items h es3) = GroupWait \<and> running (Execute b ctx items h es3) = []
            \<and> g_err (Execute b ctx items h es3) = Some err'' \<longrightarrow>
            pc (Execute b ctx items h (es3 @ Run # es4)) = Returned (Some err''))"
proof (intro conjI impI)
  assume "map_of (running s) i = Some v \<and> h (grp_ctx s) v = Return (Some err) \<and> g_err s = None"
  with assms show "finish b h i s
      = s\<lparr>running := filter (\<lambda>(j, _). j \<noteq> i) (running s), finished := finished s @ [i],
           g_err := Some err, grp_ctx := Some (case grp_ctx s of None \<Rightarrow> Canceled | Some c \<Rightarrow> c)\<rparr>"
    by (simp add: finish_def goroutine_def cancel_def split: option.splits)
next
  let ?s = "Execute b ctx items h es1"
  assume a: "pc ?s = LoopHead k \<and> grp_ctx ?s \<noteq> None"
  then have ne: "items \<noteq> []" by (auto simp: Execute_def returned_empty_def)
  from a have "halted k (started ?s) ?s" by (simp add: halted_def)
  then have "halted k (started ?s) (run b items h es2 ?s)" by (rule halted_run)
  then show "started (Execute b ctx items h (es1 @ es2)) = started ?s"
    by (simp add: Execute_append [OF ne] halted_def)
next
  assume "(j, w) \<in> set (running s) \<and> e \<noteq> Finish j"
  then show "(j, w) \<in> set (running (step b items h e s))"
    by (simp add: running_step)
next
  let ?s = "Execute b ctx items h es1"
  let ?t = "Execute b ctx items h (es1 @ es2)"
  assume a: "g_err ?s = Some err' \<and> pc ?t = Returned r"
  then have ne: "items \<noteq> []" by (auto simp: Execute_def returned_empty_def)
  have "g_err ?t = Some err'"
    using a by (simp add: Execute_append [OF ne] g_err_run)
  then have "outcome b ?t = Some err'" by (simp add: outcome_def)
  with Execute_Returned [of b ctx items h "es1 @ es2" r] a
  show "r = Some err' \<or> (RateLimit b \<noteq> Inf \<and> (\<exists>n c. r = Some (RateLimiterError n c)))"
    by auto
next
  let ?s = "Execute b ctx items h es3"
  assume a: "pc ?s = GroupWait \<and> running ?s = [] \<and> g_err ?s = Some err''"
  then have ne: "items \<noteq> []" by (auto simp: Execute_def returned_empty_def)
  from a have "pc (step b items h Run ?s) = Returned (Some err'')"
    by (simp add: step_def dispatcher_def after_wait_def outcome_def)
  from run_Returned [OF this, of b items h es4]
  show "pc (Execute b ctx items h (es3 @ Run # es4)) = Returned (Some err'')"
    by (simp add: Execute_append_step [OF ne])
qed

text \<open>
  C4, amended, at four items with a limit of two goroutines, the handler of item 1
  failing while item 0 runs: items 2 and 3 are never dispatched, item 0 runs on, and
  \<^verbatim>\<open>Execute\<close> returns the failure of item 1.
\<close>

theorem C4_fail_fast_witness:
  "\<not> IgnoreError (NewBatchExecutor [WithConcurrency 2])
   \<and> map_of (running (Execute (NewBatchExecutor [WithConcurrency 2]) None [1, 2, 3, 4 :: nat]
         (\<lambda>_ v. if v = 2 then Return (Some (ErrorString ''boom'')) else Return None) [Run, Run, Run, Run])) 1 = Some 2
   \<and> g_err (Execute (NewBatchExecutor [WithConcurrency 2]) None [1, 2, 3, 4 :: nat]
         (\<lambda>_ v. if v = 2 then Return (Some (ErrorString ''boom'')) else Return None) [Run, Run, Run, Run]) = None
   \<and> g_err (finish (NewBatchExecutor [WithConcurrency 2])
         (\<lambda>_ v. if v = 2 then Return (Some (ErrorString ''boom'')) else Return None) 1
         (Execute (NewBatchExecutor [WithConcurrency 2]) None [1, 2, 3, 4 :: nat]
           (\<lambda>_ v. if v = 2 then Return (Some (ErrorString ''boom'')) else Return None) [Run, Run, Run, Run]))
       = Some (ErrorString ''boom'')
   \<and> grp_ctx (finish (NewBatchExecutor [WithConcurrency 2])
         (\<lambda>_ v. if v = 2 then Return (Some (ErrorString ''boom'')) else Return None) 1
         (Execute (NewBatchExecutor [WithConcurrency 2]) None [1, 2, 3, 4 :: nat]
           (\<lambda>_ v. if v = 2 then Return (Some (ErrorString ''boom'')) else Return None) [Run, Run, Run, Run]))
       = Some Canceled
   \<and> pc (Execute (NewBatchExecutor [WithConcurrency 2]) None [1, 2, 3, 4 :: nat]
         (\<lambda>_ v. if v = 2 then Return (Some (ErrorString ''boom'')) else Return None)
         [Run, Run, Run, Run, Finish 1]) = LoopHead 2
   \<and> grp_ctx (Execute (NewBatchExecutor [WithConcurrency 2]) None [1, 2, 3, 4 :: nat]
         (\<lambda>_ v. if v = 2 then Return (Some (ErrorString ''boom'')) else Return None)
         [Run, Run, Run, Run, Finish 1]) \<noteq> None
   \<and> started (Execute (NewBatchExecutor [WithConcurrency 2]) None [1, 2, 3, 4 :: nat]
         (\<lambda>_ v. if v = 2 then Return (Some (ErrorString ''boom'')) else Return None)
         ([Run, Run, Run, Run, Finish 1] @ [Run, Run, Finish 0, Run])) = [0, 1]
   \<and> (0, 1) \<in> set (running (step (NewBatchExecutor [WithConcurrency 2]) [1, 2, 3, 4 :: nat]
         (\<lambda>_ v. if v = 2 then Return (Some (ErrorString ''boom'')) else Return None) (Finish 1)
         (Execute (NewBatchExecutor [WithConcurrency 2]) None [1, 2, 3, 4 :: nat]
           (\<lambda>_ v. if v = 2 then Return (Some (ErrorString ''boom'')) else Return None) [Run, Run, Run, Run])))
   \<and> pc (Execute (NewBatchExecutor [WithConcurrency 2]) None [1, 2, 3, 4 :: nat]
         (\<lambda>_ v. if v = 2 then Return (Some (ErrorString ''boom'')) else Return None)
         ([Run, Run, Run, Run, Finish 1] @ [Run, Run, Finish 0, Run])) = Returned (Some (ErrorString ''boom''))
   \<and> pc (Execute (NewBatchExecutor [WithConcurrency 2]) None [1, 2, 3, 4 :: nat]
         (\<lambda>_ v. if v = 2 then Return (Some (ErrorString ''boom'')) else Return None)
         [Run, Run, Run, Run, Finish 1, Run, Run, Finish 0]) = GroupWait
   \<and> running (Execute (NewBatchExecutor [WithConcurrency 2]) None [1, 2, 3, 4 :: nat]
         (\<lambda>_ v. if v = 2 then Return (Some (ErrorString ''boom'')) else Return None)
         [Run, Run, Run, Run, Finish 1, Run, Run, Finish 0]) = []
   \<and> pc (Execute (NewBatchExecutor [WithConcurrency 2]) None [1, 2, 3, 4 :: nat]
         (\<lambda>_ v. if v = 2 then Return (Some (ErrorString ''boom'')) else Return None)
         ([Run, Run, Run, Run, Finish 1, Run, Run, Finish 0] @ Run # [])) = Returned (Some (ErrorString ''boom''))"
proof -
  let ?b = "NewBatchExecutor [WithConcurrency 2]"
  let ?items = "[1, 2, 3, 4 :: nat]"
  let ?h = "\<lambda>(_ :: error option) (v :: nat). if v = 2 then Return (Some (ErrorString ''boom'')) else Return None"
  let ?es1 = "[Run, Run, Run, Run, Finish 1]"
  let ?es2 = "[Run, Run, Finish 0, Run]"
  have b: "\<not> IgnoreError ?b"
    by (simp add: NewBatchExecutor_def WithConcurrency_def default_config_def)
  have s0: "Execute ?b None ?items ?h [Run, Run, Run, Run]
      = \<lparr>pc = LoopHead 2, grp_ctx = None, g_err = None, g_limit = 2, running = [(0, 1), (1, 2)],
         limiter = False, errs = [], out = [], started = [0, 1], finished = []\<rparr>"
    by (simp add: exec_eval)
  have s1: "Execute ?b None ?items ?h ?es1
      = \<lparr>pc = LoopHead 2, grp_ctx = Some Canceled, g_err = Some (ErrorString ''boom''), g_limit = 2,
         running = [(0, 1)], limiter = False, errs = [], out = [], started = [0, 1], finished = [1]\<rparr>"
    by (simp add: exec_eval)
  have s2: "pc (Execute ?b None ?items ?h (?es1 @ ?es2)) = Returned (Some (ErrorString ''boom''))"
    by (simp add: exec_eval)
  have s3: "Execute ?b None ?items ?h [Run, Run, Run, Run, Finish 1, Run, Run, Finish 0]
      = \<lparr>pc = GroupWait, grp_ctx = Some Canceled, g_err = Some (ErrorString ''boom''), g_limit = 2,
         running = [], limiter = False, errs = [], out = [], started = [0, 1], finished = [1, 0]\<rparr>"
    by (simp add: exec_eval)
  show ?thesis
    using C4_fail_fast [OF b, where s = "Execute ?b None ?items ?h [Run, Run, Run, Run]"
        and i = 1 and v = 2 and h = ?h and err = "ErrorString ''boom''" and ctx = None
        and items = ?items and ?es1.0 = ?es1 and k = 2 and ?es2.0 = ?es2 and j = 0 and w = 1
        and e = "Finish 1" and err' = "ErrorString ''boom''" and r = "Some (ErrorString ''boom'')"
        and ?es3.0 = "[Run, Run, Run, Run, Finish 1, Run, Run, Finish 0]" and ?es4.0 = "[]"
        and err'' = "ErrorString ''boom''"]
      b s2
    unfolding s0 s1 s3 by simp
qed


section \<open>Where a returned error comes from\<close>

lemma from_handler_mono: "from_handler h items done i err \<Longrightarrow> from_handler h items (done @ [j]) i err"
  by (simp add: from_handler_def)

lemma prov_inv_init: "prov_inv h items (init b ctx)"
  by (simp add: prov_inv_def init_def)

lemma prov_inv_finish:
  assumes "prov_inv h items s" and "wf_state items s"
  shows "prov_inv h items (finish b h i s)"
proof (cases "map_of (running s) i")
  case None
  with assms(1) show ?thesis by (simp add: finish_def)
next
  case (Some v)
  then have "(i, v) \<in> set (running s)" by (rule map_of_SomeD)
  with assms(2) have iv: "i < length items" "v = items ! i"
    by (auto simp: wf_state_def)
  have new: "h c v = Return (Some err) \<Longrightarrow> from_handler h items (finished s @ [i]) i err" for c err
    using iv by (auto simp: from_handler_def)
  from assms(1) have old:
    "\<And>err. g_err s = Some err \<Longrightarrow> \<exists>k. from_handler h items (finished s @ [i]) k err"
    "\<And>x. x \<in> set (errs s) \<Longrightarrow> \<exists>k err. x = ItemFailed k err \<and> from_handler h items (finished s @ [i]) k err"
    unfolding prov_inv_def by (blast intro: from_handler_mono)+
  show ?thesis
  proof (cases "h (grp_ctx s) v")
    case (Panic r)
    with Some old show ?thesis
      by (simp add: finish_def goroutine_def prov_inv_def)
  next
    case (Return eo)
    show ?thesis
    proof (cases eo)
      case None
      with Return Some old show ?thesis
        by (simp add: finish_def goroutine_def prov_inv_def)
    next
      case (Some err)
      with Return have "h (grp_ctx s) v = Return (Some err)" by simp
      from new [OF this] have n: "from_handler h items (finished s @ [i]) i err" .
      from \<open>map_of (running s) i = Some v\<close> Return Some old n show ?thesis
        by (auto simp: finish_def goroutine_def prov_inv_def split: option.splits)
    qed
  qed
qed

lemma prov_inv_step:
  assumes "prov_inv h items s" and "wf_state items s"
  shows "prov_inv h items (step b items h e s)"
proof (cases e)
  case (Finish i)
  with assms show ?thesis by (simp add: step_def prov_inv_finish)
next
  case Run
  with assms(1) show ?thesis
    by (auto simp: step_def dispatcher_def limiter_wait_def after_wait_def prov_inv_def
             split: pc.splits option.splits)
next
  case Token
  with assms(1) show ?thesis
    by (auto simp: step_def prov_inv_def split: pc.splits)
next
  case NoToken
  with assms(1) show ?thesis
    by (auto simp: step_def limiter_wait_def prov_inv_def split: pc.splits option.splits)
next
  case (Cancel c)
  with assms(1) show ?thesis
    by (auto simp: step_def prov_inv_def)
qed

lemma prov_inv_run:
  "prov_inv h items s \<Longrightarrow> wf_state items s \<Longrightarrow> prov_inv h items (run b items h es s)"
proof (induction es arbitrary: s)
  case Nil
  then show ?case by simp
next
  case (Cons e es)
  then show ?case by (simp add: prov_inv_step wf_step)
qed

lemma prov_inv_Execute: "prov_inv h items (Execute b ctx items h es)"
  by (simp add: Execute_def prov_inv_run prov_inv_init wf_init)
     (simp add: prov_inv_def returned_empty_def)
text \<open>
  C10, as the claim has it, fails when a rate limit is set: the handler of item 1 fails
  with \<^verbatim>\<open>"bad item"\<close> just before the dispatching thread calls \<^verbatim>\<open>limiter.Wait\<close> for item 2,
  and \<^verbatim>\<open>Execute\<close> returns \<^verbatim>\<open>"rate limiter error at index 2: context canceled"\<close>, an error
  tagged with an index and not the value the handler returned.
\<close>

theorem C10_returned_failure_is_index_tagged:
  "\<not> IgnoreError (NewBatchExecutor [WithRateLimit 2, WithConcurrency 2])
   \<and> finished (Execute (NewBatchExecutor [WithRateLimit 2, WithConcurrency 2]) None [10, 20, 30::nat]
        (\<lambda>_ v. if v = 20 then Return (Some (ErrorString ''bad item'')) else Return None)
        [Run, Run, Token, Run, Run, Run, Token, Run, Run, Finish 1, Run])
     = [1]
   \<and> g_err (Execute (NewBatchExecutor [WithRateLimit 2, WithConcurrency 2]) None [10, 20, 30::nat]
        (\<lambda>_ v. if v = 20 then Return (Some (ErrorString ''bad item'')) else Return None)
        [Run, Run, Token, Run, Run, Run, Token, Run, Run, Finish 1, Run])
     = Some (ErrorString ''bad item'')
   \<and> pc (Execute (NewBatchExecutor [WithRateLimit 2, WithConcurrency 2]) None [10, 20, 30::nat]
        (\<lambda>_ v. if v = 20 then Return (Some (ErrorString ''bad item'')) else Return None)
        [Run, Run, Token, Run, Run, Run, Token, Run, Run, Finish 1, Run])
     = Returned (Some (RateLimiterError 2 Canceled))"
  by (simp add: exec_eval)

text \<open>
  C10, amended. Without \<^verbatim>\<open>IgnoreError\<close>, an error that \<^verbatim>\<open>Execute\<close> returns is the very
  value that the handler returned for an item whose call has ended, with nothing wrapped
  around it, or, only when a rate limit is set, the error of a failed \<^verbatim>\<open>limiter.Wait\<close>.
  Every element of \<^verbatim>\<open>errs\<close> is \<open>ItemFailed i err\<close> for an item \<open>i\<close> whose call has ended and
  the error \<open>err\<close> the handler returned for it.
\<close>

theorem C10_fail_fast_error_unwrapped:
  shows "(\<not> IgnoreError b \<and> pc (Execute b ctx items h sched) = Returned (Some e) \<longrightarrow>
            (\<exists>i. from_handler h items (finished (Execute b ctx items h sched)) i e)
            \<or> (RateLimit b \<noteq> Inf \<and> (\<exists>n c. e = RateLimiterError n c)))
       \<and> (\<forall>x \<in> set (errs (Execute b ctx items h sched)).
            \<exists>i err. x = ItemFailed i err
               \<and> from_handler h items (finished (Execute b ctx items h sched)) i err)"
proof (intro conjI impI)
  let ?s = "Execute b ctx items h sched"
  assume a: "\<not> IgnoreError b \<and> pc ?s = Returned (Some e)"
  then have "outcome b ?s = g_err ?s" by (simp add: outcome_def split: option.splits)
  with Execute_Returned [of b ctx items h sched "Some e"] a
  have "g_err ?s = Some e \<or> (RateLimit b \<noteq> Inf \<and> (\<exists>n c. e = RateLimiterError n c))"
    by auto
  with prov_inv_Execute [of h items b ctx sched]
  show "(\<exists>i. from_handler h items (finished ?s) i e)
            \<or> (RateLimit b \<noteq> Inf \<and> (\<exists>n c. e = RateLimiterError n c))"
    by (auto simp: prov_inv_def)
next
  from prov_inv_Execute [of h items b ctx sched]
  show "\<forall>x \<in> set (errs (Execute b ctx items h sched)).
            \<exists>i err. x = ItemFailed i err
               \<and> from_handler h items (finished (Execute b ctx items h sched)) i err"
    by (simp add: prov_inv_def)
qed

text \<open>
  C10, amended, at three items of which the last two fail, the last one first: without
  \<^verbatim>\<open>IgnoreError\<close> the value returned is the error of item 2 as the handler returned it;
  with \<^verbatim>\<open>IgnoreError\<close> both errors are in \<^verbatim>\<open>errs\<close>, each wrapped with its index.
\<close>

theorem C10_fail_fast_error_unwrapped_witness:
  "\<not> IgnoreError (NewBatchExecutor [WithConcurrency 3])
   \<and> RateLimit (NewBatchExecutor [WithConcurrency 3]) = Inf
   \<and> pc (Execute (NewBatchExecutor [WithConcurrency 3]) None [''x'', ''y'', ''z'']
        (\<lambda>_ v. if v = ''y'' then Return (Some (ErrorString ''nope''))
                else if v = ''z'' then Return (Some (ErrorString ''later'')) else Return None)
        [Run, Run, Run, Run, Run, Run, Run, Finish 2, Finish 1, Finish 0, Run])
      = Returned (Some (ErrorString ''later''))
   \<and> (\<exists>i. from_handler
        (\<lambda>_ v. if v = ''y'' then Return (Some (ErrorString ''nope''))
                else if v = ''z'' then Return (Some (ErrorString ''later'')) else Return None)
        [''x'', ''y'', ''z'']
        (finished (Execute (NewBatchExecutor [WithConcurrency 3]) None [''x'', ''y'', ''z'']
          (\<lambda>_ v. if v = ''y'' then Return (Some (ErrorString ''nope''))
                  else if v = ''z'' then Return (Some (ErrorString ''later'')) else Return None)
          [Run, Run, Run, Run, Run, Run, Run, Finish 2, Finish 1, Finish 0, Run]))
        i (ErrorString ''later''))
   \<and> errs (Execute (NewBatchExecutor [WithIgnoreError True]) None [''x'', ''y'', ''z'']
        (\<lambda>_ v. if v = ''y'' then Return (Some (ErrorString ''nope''))
                else if v = ''z'' then Return (Some (ErrorString ''later'')) else Return None)
        [Run, Run, Run, Run, Run, Run, Run, Finish 2, Finish 1, Finish 0, Run])
      = [ItemFailed 2 (ErrorString ''later''), ItemFailed 1 (ErrorString ''nope'')]
   \<and> (\<exists>i err. ItemFailed 2 (ErrorString ''later'') = ItemFailed i err
        \<and> from_handler
            (\<lambda>_ v. if v = ''y'' then Return (Some (ErrorString ''nope''))
                    else if v = ''z'' then Return (Some (ErrorString ''later'')) else Return None)
            [''x'', ''y'', ''z'']
            (finished (Execute (NewBatchExecutor [WithIgnoreError True]) None [''x'', ''y'', ''z'']
              (\<lambda>_ v. if v = ''y'' then Return (Some (ErrorString ''nope''))
                      else if v = ''z'' then Return (Some (ErrorString ''later'')) else Return None)
              [Run, Run, Run, Run, Run, Run, Run, Finish 2, Finish 1, Finish 0, Run]))
            i err)"
proof -
  let ?b = "NewBatchExecutor [WithConcurrency 3]"
  let ?b' = "NewBatchExecutor [WithIgnoreError True]"
  let ?items = "[''x'', ''y'', ''z'']"
  let ?h = "\<lambda>(_ :: error option) v. if v = ''y'' then Return (Some (ErrorString ''nope''))
                else if v = ''z'' then Return (Some (ErrorString ''later'')) else Return None"
  let ?es = "[Run, Run, Run, Run, Run, Run, Run, Finish 2, Finish 1, Finish 0, Run]"
  have b: "\<not> IgnoreError ?b" "RateLimit ?b = Inf"
    by (simp_all add: NewBatchExecutor_def WithConcurrency_def default_config_def)
  have r: "pc (Execute ?b None ?items ?h ?es) = Returned (Some (ErrorString ''later''))"
    by (simp add: exec_eval)
  have e: "errs (Execute ?b' None ?items ?h ?es)
      = [ItemFailed 2 (ErrorString ''later''), ItemFailed 1 (ErrorString ''nope'')]"
    by (simp add: exec_eval)
  show ?thesis
    using C10_fail_fast_error_unwrapped [of ?b None ?items ?h ?es "ErrorString ''later''"]
      C10_fail_fast_error_unwrapped [of ?b' None ?items ?h ?es "ErrorString ''later''"]
      b r e
    by simp
qed


section \<open>Goroutines left running\<close>

text \<open>
  C1. Two items under a rate limit of one per second; item 0 is dispatched and its
  handler is still running while the dispatching thread is in \<^verbatim>\<open>limiter.Wait\<close> for
  item 1. On the first schedule the caller cancels the context during the wait; on the
  second the context's deadline is too near for the next token, and \<^verbatim>\<open>Wait\<close> fails
  at once. Either way \<^verbatim>\<open>Execute\<close> returns the error of line 111 without \<^verbatim>\<open>g.Wait()\<close>: the
  goroutine of item 0 is still running when it returns.
\<close>

theorem C1_admission_failure_leaves_goroutine_running:
  "pc (Execute (NewBatchExecutor [WithRateLimit 1]) None [''a'', ''b''] (\<lambda>_ _. Return None)
        [Run, Run, Token, Run, Run, Run, Cancel Canceled, Run])
     = Returned (Some (RateLimiterError 1 Canceled))
   \<and> running (Execute (NewBatchExecutor [WithRateLimit 1]) None [''a'', ''b''] (\<lambda>_ _. Return None)
        [Run, Run, Token, Run, Run, Run, Cancel Canceled, Run])
     = [(0, ''a'')]
   \<and> finished (Execute (NewBatchExecutor [WithRateLimit 1]) None [''a'', ''b''] (\<lambda>_ _. Return None)
        [Run, Run, Token, Run, Run, Run, Cancel Canceled, Run])
     = []
   \<and> pc (Execute (NewBatchExecutor [WithRateLimit 1]) None [''a'', ''b''] (\<lambda>_ _. Return None)
        [Run, Run, Token, Run, Run, NoToken])
     = Returned (Some (RateLimiterError 1 WaitExceedsDeadline))
   \<and> running (Execute (NewBatchExecutor [WithRateLimit 1]) None [''a'', ''b''] (\<lambda>_ _. Return None)
        [Run, Run, Token, Run, Run, NoToken])
     = [(0, ''a'')]"
  by (simp add: exec_eval)


section \<open>The worker pool\<close>

lemma live_update:
  "k < length ws \<Longrightarrow>
   live (ws[k := p]) + (if ws ! k \<noteq> Exited then 1 else 0) = live ws + (if p \<noteq> Exited then 1 else 0)"
proof (induction ws arbitrary: k)
  case Nil
  then show ?case by simp
next
  case (Cons x xs)
  show ?case
  proof (cases k)
    case 0
    then show ?thesis by (simp add: live_def)
  next
    case (Suc n)
    with Cons.prems have "n < length xs" by simp
    from Cons.IH [OF this] Suc show ?thesis by (auto simp: live_def split: if_splits)
  qed
qed

lemma live_exit: "k < length ws \<Longrightarrow> ws ! k \<noteq> Exited \<Longrightarrow> int (live (ws[k := Exited])) = int (live ws) - 1"
  using live_update [of k ws Exited] by simp

lemma live_keep: "k < length ws \<Longrightarrow> ws ! k \<noteq> Exited \<Longrightarrow> p \<noteq> Exited \<Longrightarrow> live (ws[k := p]) = live ws"
  using live_update [of k ws p] by simp

lemma live_append: "live (ws @ [Select]) = live ws + 1"
  by (simp add: live_def)

lemma live_zero: "live ws = 0 \<longleftrightarrow> (\<forall>p \<in> set ws. p = Exited)"
  by (auto simp: live_def filter_empty_conv)

lemma Exited_update: "Exited \<in> set (ws[k := p]) \<Longrightarrow> p \<noteq> Exited \<Longrightarrow> Exited \<in> set ws"
  using set_update_subset_insert [of ws k p] by auto

lemma pool_inv_init: "0 \<le> concurrency w \<Longrightarrow> pool_inv w (pool_init ctx buf cl)"
  by (simp add: pool_inv_def pool_init_def live_def)

lemma pool_inv_start_thread: "pool_inv w s \<Longrightarrow> pool_inv w (start_thread w s)"
  by (auto simp: pool_inv_def start_thread_def live_append split: start_pc.splits)

lemma pool_inv_exit:
  assumes "pool_inv w s" and "k < length (workers s)" and "workers s ! k = Select"
    and "ctx_err s \<noteq> None \<or> (ch_closed s \<and> ch s = [])"
  shows "pool_inv w (worker_exit k s)"
proof -
  have "int (live ((workers s)[k := Exited])) = int (live (workers s)) - 1"
    using assms(2,3) by (simp add: live_exit)
  moreover have "wg s \<noteq> 1 \<or> start_pc s \<noteq> StartReturned"
    using assms(1) by (auto simp: pool_inv_def)
  ultimately show ?thesis
    using assms by (auto simp: pool_inv_def worker_exit_def split: start_pc.splits)
qed

lemma pool_inv_receive: "pool_inv w s \<Longrightarrow> pool_inv w (receive k s)"
proof (cases "k < length (workers s) \<and> workers s ! k = Select")
  case False
  then show "pool_inv w s \<Longrightarrow> pool_inv w (receive k s)" by (auto simp: receive_def)
next
  case True
  assume inv: "pool_inv w s"
  show "pool_inv w (receive k s)"
  proof (cases "ch s")
    case Nil
    with True inv show ?thesis
      by (auto simp: receive_def intro: pool_inv_exit)
  next
    case (Cons v rest)
    have "live ((workers s)[k := Handling v]) = live (workers s)"
      using True by (simp add: live_keep)
    moreover have "Exited \<in> set ((workers s)[k := Handling v]) \<Longrightarrow> Exited \<in> set (workers s)"
      by (erule Exited_update) simp
    ultimately show ?thesis
      using True inv Cons by (auto simp: receive_def pool_inv_def split: start_pc.splits)
  qed
qed

lemma pool_inv_ctx_done: "pool_inv w s \<Longrightarrow> pool_inv w (ctx_done k s)"
  by (auto simp: ctx_done_def intro: pool_inv_exit)

lemma pool_inv_handler_ends: "pool_inv w s \<Longrightarrow> pool_inv w (handler_ends w k s)"
proof (cases "k < length (workers s)")
  case False
  then show "pool_inv w s \<Longrightarrow> pool_inv w (handler_ends w k s)" by (simp add: handler_ends_def)
next
  case True
  assume inv: "pool_inv w s"
  show "pool_inv w (handler_ends w k s)"
  proof (cases "workers s ! k")
    case (Handling v)
    have "live ((workers s)[k := Select]) = live (workers s)"
      using True Handling by (simp add: live_keep)
    moreover have "Exited \<in> set ((workers s)[k := Select]) \<Longrightarrow> Exited \<in> set (workers s)"
      by (erule Exited_update) simp
    ultimately show ?thesis
      using True inv Handling
      by (auto simp: handler_ends_def pool_inv_def split: start_pc.splits handler_result.splits)
  qed (use inv True in \<open>simp_all add: handler_ends_def\<close>)
qed

lemma pool_inv_step: "pool_inv w s \<Longrightarrow> pool_inv w (pool_step w e s)"
proof (cases e)
  case (Send v)
  then show "pool_inv w s \<Longrightarrow> pool_inv w (pool_step w e s)"
    by (auto simp: pool_step_def pool_inv_def split: start_pc.splits)
next
  case Close
  then show "pool_inv w s \<Longrightarrow> pool_inv w (pool_step w e s)"
    by (auto simp: pool_step_def pool_inv_def split: start_pc.splits)
next
  case (CancelCtx c)
  then show "pool_inv w s \<Longrightarrow> pool_inv w (pool_step w e s)"
    by (auto simp: pool_step_def pool_inv_def split: start_pc.splits option.splits)
qed (simp_all add: pool_step_def pool_inv_start_thread pool_inv_receive pool_inv_ctx_done pool_inv_handler_ends)

lemma pool_inv_run: "pool_inv w s \<Longrightarrow> pool_inv w (pool_run w es s)"
  by (induction es arbitrary: s) (simp_all add: pool_inv_step)

lemma pool_inv_Start: "0 \<le> concurrency w \<Longrightarrow> pool_inv w (Start w ctx buf cl es)"
  by (simp add: Start_def pool_inv_run pool_inv_init)

lemma worker_exit_printed: "worker_exit k (s\<lparr>printed := x\<rparr>) = (worker_exit k s)\<lparr>printed := x\<rparr>"
  by (simp add: worker_exit_def)

lemma pool_step_silent:
  assumes "concurrency w' = concurrency w" and "handler w' = (\<lambda>_ _. Return None)"
  shows "pool_step w' e (s\<lparr>printed := []\<rparr>) = (pool_step w e s)\<lparr>printed := []\<rparr>"
proof (cases e)
  case StartRun
  then show ?thesis
    using assms(1) by (simp add: pool_step_def start_thread_def split: start_pc.splits)
next
  case (Receive k)
  then show ?thesis
    by (simp add: pool_step_def receive_def worker_exit_printed split: list.splits)
next
  case (CtxDone k)
  then show ?thesis
    by (auto simp: pool_step_def ctx_done_def worker_exit_printed)
next
  case (HandlerEnds k)
  then show ?thesis
    using assms(2)
    by (simp add: pool_step_def handler_ends_def split: worker_pc.splits handler_result.splits)
next
  case (Send v)
  then show ?thesis by (simp add: pool_step_def)
next
  case Close
  then show ?thesis by (simp add: pool_step_def)
next
  case (CancelCtx c)
  then show ?thesis by (simp add: pool_step_def split: option.splits)
qed

lemma pool_run_silent:
  assumes "concurrency w' = concurrency w" and "handler w' = (\<lambda>_ _. Return None)"
  shows "pool_run w' es (s\<lparr>printed := []\<rparr>) = (pool_run w es s)\<lparr>printed := []\<rparr>"
  by (induction es arbitrary: s) (simp_all add: pool_step_silent [OF assms])

lemma Start_silent:
  "Start (NewStreamWorker n (\<lambda>_ _. Return None)) ctx buf cl es
     = (Start (NewStreamWorker n f) ctx buf cl es)\<lparr>printed := []\<rparr>"
proof -
  have "pool_init ctx buf cl = (pool_init ctx buf cl :: 'a pool_state)\<lparr>printed := []\<rparr>"
    by (simp add: pool_init_def)
  then have "Start (NewStreamWorker n (\<lambda>_ _. Return None)) ctx buf cl es
      = pool_run (NewStreamWorker n (\<lambda>_ _. Return None)) es ((pool_init ctx buf cl)\<lparr>printed := []\<rparr>)"
    by (simp add: Start_def)
  also have "\<dots> = (pool_run (NewStreamWorker n f) es (pool_init ctx buf cl))\<lparr>printed := []\<rparr>"
    by (rule pool_run_silent) (simp_all add: NewStreamWorker_def)
  finally show ?thesis by (simp add: Start_def)
qed

lemma Start_returned:
  assumes "1 \<le> concurrency w" and "start_pc (Start w ctx buf cl es) = StartReturned"
  shows "int (length (workers (Start w ctx buf cl es))) = concurrency w
       \<and> (\<forall>p \<in> set (workers (Start w ctx buf cl es)). p = Exited)
       \<and> (ctx_err (Start w ctx buf cl es) \<noteq> None
          \<or> (ch_closed (Start w ctx buf cl es) \<and> ch (Start w ctx buf cl es) = []))"
proof -
  let ?s = "Start w ctx buf cl es"
  have inv: "pool_inv w ?s"
    using assms(1) by (simp add: pool_inv_Start)
  with assms(2) have len: "int (length (workers ?s)) = concurrency w" and "live (workers ?s) = 0"
    by (simp_all add: pool_inv_def)
  then have all: "\<forall>p \<in> set (workers ?s). p = Exited"
    by (simp add: live_zero)
  from len assms(1) have "workers ?s \<noteq> []" by auto
  with all have "Exited \<in> set (workers ?s)"
    by (cases "workers ?s") auto
  with inv have "ctx_err ?s \<noteq> None \<or> (ch_closed ?s \<and> ch ?s = [])"
    by (simp add: pool_inv_def)
  with len all show ?thesis by simp
qed
lemma pool_run_append: "pool_run w (es1 @ es2) s = pool_run w es2 (pool_run w es1 s)"
  by (induction es1 arbitrary: s) simp_all

lemma start_thread_frame:
  "ctx_err (start_thread w s) = ctx_err s" "ch (start_thread w s) = ch s"
  "ch_closed (start_thread w s) = ch_closed s" "handled (start_thread w s) = handled s"
  by (simp_all add: start_thread_def split: start_pc.splits)

lemma spawn_left_step: "spawn_left w (start_thread w s) = spawn_left w s - 1"
  by (auto simp: spawn_left_def start_thread_def split: start_pc.splits)

lemma spawn_run:
  "spawn_left w (pool_run w (replicate m StartRun) s) = spawn_left w s - m
   \<and> ctx_err (pool_run w (replicate m StartRun) s) = ctx_err s
   \<and> ch (pool_run w (replicate m StartRun) s) = ch s
   \<and> ch_closed (pool_run w (replicate m StartRun) s) = ch_closed s
   \<and> handled (pool_run w (replicate m StartRun) s) = handled s"
proof (induction m arbitrary: s)
  case 0
  then show ?case by simp
next
  case (Suc m)
  from Suc [of "start_thread w s"] show ?case
    by (simp add: pool_step_def spawn_left_step start_thread_frame)
qed

lemma spawned:
  "start_pc (pool_run w (replicate (Suc (nat (concurrency w))) StartRun) s) = Waiting
   \<or> start_pc (pool_run w (replicate (Suc (nat (concurrency w))) StartRun) s) = StartReturned"
proof -
  let ?t = "pool_run w (replicate (Suc (nat (concurrency w))) StartRun) s"
  have "spawn_left w s \<le> Suc (nat (concurrency w))"
    by (simp add: spawn_left_def split: start_pc.splits)
  with spawn_run [of w "Suc (nat (concurrency w))" s] have "spawn_left w ?t = 0" by simp
  then show ?thesis
    by (cases "start_pc ?t") (simp_all add: spawn_left_def)
qed

lemma handler_ends_frame:
  "start_pc (handler_ends w k s) = start_pc s" "ctx_err (handler_ends w k s) = ctx_err s"
  "ch (handler_ends w k s) = ch s" "ch_closed (handler_ends w k s) = ch_closed s"
  "handled (handler_ends w k s) = handled s"
  "length (workers (handler_ends w k s)) = length (workers s)"
  by (simp_all add: handler_ends_def split: worker_pc.splits handler_result.splits)

lemma update_same: "ws ! k = p \<Longrightarrow> ws[k := p] = ws"
  by auto

lemma handler_ends_workers:
  "k < length (workers s) \<Longrightarrow>
   workers (handler_ends w k s)
     = (case workers s ! k of Handling v \<Rightarrow> (workers s)[k := Select] | _ \<Rightarrow> workers s)"
  by (simp add: handler_ends_def split: worker_pc.splits handler_result.splits)

lemma handler_ends_idle: "k < length (workers s) \<Longrightarrow> workers (handler_ends w k s) ! k \<noteq> Handling v"
  by (simp add: handler_ends_workers split: worker_pc.splits)

lemma leave_one_CtxDone:
  assumes "ctx_err s \<noteq> None" and "k < length (workers s)"
  shows "workers (ctx_done k (handler_ends w k s)) = (workers s)[k := Exited]
       \<and> ctx_err (ctx_done k (handler_ends w k s)) = ctx_err s
       \<and> start_pc (ctx_done k (handler_ends w k s)) = start_pc s"
  using assms
  by (cases "workers s ! k")
     (auto simp: ctx_done_def worker_exit_def handler_ends_workers handler_ends_frame update_same)

lemma leave_one_Receive:
  assumes "ch s = []" and "ch_closed s" and "k < length (workers s)"
  shows "workers (receive k (handler_ends w k s)) = (workers s)[k := Exited]
       \<and> ch (receive k (handler_ends w k s)) = []
       \<and> ch_closed (receive k (handler_ends w k s))
       \<and> start_pc (receive k (handler_ends w k s)) = start_pc s
       \<and> handled (receive k (handler_ends w k s)) = handled s"
  using assms
  by (cases "workers s ! k")
     (auto simp: receive_def worker_exit_def handler_ends_workers handler_ends_frame update_same)

lemma leave_Suc: "leave ev (Suc j) = leave ev j @ [HandlerEnds j, ev j]"
  by (simp add: leave_def)

lemma leave_CtxDone:
  assumes "ctx_err s \<noteq> None"
  shows "j \<le> length (workers s) \<Longrightarrow>
     (\<forall>i<j. workers (pool_run w (leave CtxDone j) s) ! i = Exited)
     \<and> length (workers (pool_run w (leave CtxDone j) s)) = length (workers s)
     \<and> ctx_err (pool_run w (leave CtxDone j) s) = ctx_err s
     \<and> start_pc (pool_run w (leave CtxDone j) s) = start_pc s"
proof (induction j)
  case 0
  then show ?case by (simp add: leave_def)
next
  case (Suc j)
  let ?t = "pool_run w (leave CtxDone j) s"
  from Suc have ih: "\<forall>i<j. workers ?t ! i = Exited" "length (workers ?t) = length (workers s)"
    "ctx_err ?t = ctx_err s" "start_pc ?t = start_pc s"
    by simp_all
  have j: "j < length (workers ?t)" using Suc.prems ih(2) by simp
  have c: "ctx_err ?t \<noteq> None" using assms ih(3) by simp
  have run: "pool_run w (leave CtxDone (Suc j)) s = ctx_done j (handler_ends w j ?t)"
    by (simp add: leave_Suc pool_run_append pool_step_def)
  from leave_one_CtxDone [OF c j, of w] ih j show ?case
    unfolding run by (auto simp: nth_list_update less_Suc_eq)
qed

lemma leave_Receive:
  assumes "ch s = []" and "ch_closed s"
  shows "j \<le> length (workers s) \<Longrightarrow>
     (\<forall>i<j. workers (pool_run w (leave Receive j) s) ! i = Exited)
     \<and> length (workers (pool_run w (leave Receive j) s)) = length (workers s)
     \<and> ch (pool_run w (leave Receive j) s) = []
     \<and> ch_closed (pool_run w (leave Receive j) s)
     \<and> start_pc (pool_run w (leave Receive j) s) = start_pc s
     \<and> handled (pool_run w (leave Receive j) s) = handled s"
proof (induction j)
  case 0
  with assms show ?case by (simp add: leave_def)
next
  case (Suc j)
  let ?t = "pool_run w (leave Receive j) s"
  from Suc have ih: "\<forall>i<j. workers ?t ! i = Exited" "length (workers ?t) = length (workers s)"
    "ch ?t = []" "ch_closed ?t" "start_pc ?t = start_pc s" "handled ?t = handled s"
    by simp_all
  have j: "j < length (workers ?t)" using Suc.prems ih(2) by simp
  have run: "pool_run w (leave Receive (Suc j)) s = receive j (handler_ends w j ?t)"
    by (simp add: leave_Suc pool_run_append pool_step_def)
  from leave_one_Receive [OF ih(3) ih(4) j, of w] ih j show ?case
    unfolding run by (auto simp: nth_list_update less_Suc_eq)
qed

lemma all_Exited_live:
  assumes "\<forall>i<length ws. ws ! i = Exited"
  shows "live ws = 0"
  using assms by (auto simp: live_zero in_set_conv_nth)

lemma returns_when_all_left:
  assumes "pool_inv w s" and "start_pc s = Waiting \<or> start_pc s = StartReturned"
    and "\<forall>i<length (workers s). workers s ! i = Exited"
  shows "start_pc (pool_run w [StartRun] s) = StartReturned"
proof -
  from assms(3) have "live (workers s) = 0" by (rule all_Exited_live)
  with assms(1) have "wg s = 0" by (simp add: pool_inv_def)
  with assms(2) show ?thesis
    by (auto simp: pool_step_def start_thread_def)
qed

lemma settled_length:
  assumes "pool_inv w s" and "start_pc s = Waiting \<or> start_pc s = StartReturned"
  shows "length (workers s) = nat (concurrency w)"
  using assms by (auto simp: pool_inv_def)

lemma shutdown_returns:
  assumes "pool_inv w s" and "ctx_err s \<noteq> None"
  shows "start_pc (pool_run w (shutdown (nat (concurrency w))) s) = StartReturned"
proof -
  let ?n = "nat (concurrency w)"
  let ?s1 = "pool_run w (replicate (Suc ?n) StartRun) s"
  let ?s2 = "pool_run w (leave CtxDone ?n) ?s1"
  have inv1: "pool_inv w ?s1" using assms(1) by (rule pool_inv_run)
  have pc1: "start_pc ?s1 = Waiting \<or> start_pc ?s1 = StartReturned" by (rule spawned)
  have c1: "ctx_err ?s1 \<noteq> None" using assms(2) spawn_run [of w "Suc ?n" s] by simp
  have len1: "length (workers ?s1) = ?n" using inv1 pc1 by (rule settled_length)
  from leave_CtxDone [OF c1, of ?n w] len1
  have all: "\<forall>i<length (workers ?s2). workers ?s2 ! i = Exited" and pc2: "start_pc ?s2 = start_pc ?s1"
    by simp_all
  have inv2: "pool_inv w ?s2" using inv1 by (rule pool_inv_run)
  from pc1 pc2 have "start_pc ?s2 = Waiting \<or> start_pc ?s2 = StartReturned" by simp
  from returns_when_all_left [OF inv2 this all] show ?thesis
    by (simp add: shutdown_def pool_run_append)
qed

lemma drain_pairs:
  "pool_inv w s \<Longrightarrow> 0 < length (workers s) \<Longrightarrow> (\<forall>v. workers s ! 0 \<noteq> Handling v) \<Longrightarrow>
   ctx_err s = None \<Longrightarrow> ch_closed s \<Longrightarrow> length (ch s) = m \<Longrightarrow>
   pool_inv w (pool_run w (concat (replicate m [Receive 0, HandlerEnds 0])) s)
   \<and> ch (pool_run w (concat (replicate m [Receive 0, HandlerEnds 0])) s) = []
   \<and> ch_closed (pool_run w (concat (replicate m [Receive 0, HandlerEnds 0])) s)
   \<and> start_pc (pool_run w (concat (replicate m [Receive 0, HandlerEnds 0])) s) = start_pc s
   \<and> length (workers (pool_run w (concat (replicate m [Receive 0, HandlerEnds 0])) s)) = length (workers s)
   \<and> handled (pool_run w (concat (replicate m [Receive 0, HandlerEnds 0])) s)
       = handled s @ map (Pair 0) (ch s)"
proof (induction m arbitrary: s)
  case 0
  then show ?case by simp
next
  case (Suc m)
  from Suc.prems(6) obtain v rest where ch: "ch s = v # rest" and rest: "length rest = m"
    by (cases "ch s") auto
  have sel: "workers s ! 0 = Select"
  proof (cases "workers s ! 0")
    case Exited
    with Suc.prems(2) have "Exited \<in> set (workers s)" by (metis nth_mem)
    with Suc.prems(1,4) ch show ?thesis by (simp add: pool_inv_def)
  next
    case (Handling x)
    with Suc.prems(3) show ?thesis by simp
  qed simp
  let ?r = "receive 0 s"
  let ?t = "handler_ends w 0 ?r"
  have r: "?r = s\<lparr>ch := rest, workers := (workers s)[0 := Handling v], handled := handled s @ [(0, v)]\<rparr>"
    using Suc.prems(2) sel ch by (simp add: receive_def)
  have len: "0 < length (workers ?r)" using Suc.prems(2) by (simp add: r)
  have "workers ?t = (case workers ?r ! 0 of Handling x \<Rightarrow> (workers ?r)[0 := Select] | _ \<Rightarrow> workers ?r)"
    by (rule handler_ends_workers [OF len])
  also have "\<dots> = (workers s)[0 := Select]"
    using Suc.prems(2) by (simp add: r)
  finally have wt: "workers ?t = (workers s)[0 := Select]" .
  have inv: "pool_inv w ?t"
    using pool_inv_step [OF pool_inv_step [OF Suc.prems(1), of "Receive 0"], of "HandlerEnds 0"]
    by (simp add: pool_step_def)
  have tw: "0 < length (workers ?t)" "\<forall>x. workers ?t ! 0 \<noteq> Handling x"
    "length (workers ?t) = length (workers s)"
    using Suc.prems(2) by (simp_all add: wt)
  have tf: "ctx_err ?t = ctx_err ?r" "ch_closed ?t = ch_closed ?r" "ch ?t = ch ?r"
    "start_pc ?t = start_pc ?r" "handled ?t = handled ?r"
    by (simp_all only: handler_ends_frame)
  have t: "ctx_err ?t = None" "ch_closed ?t" "length (ch ?t) = m" "ch ?t = rest"
    "start_pc ?t = start_pc s" "handled ?t = handled s @ [(0, v)]"
    using Suc.prems(4,5) rest unfolding tf by (simp_all add: r)
  from Suc.IH [OF inv tw(1) tw(2) t(1) t(2) t(3)] t tw ch show ?case
    by (simp add: pool_step_def)
qed

lemma drain_returns:
  assumes "pool_inv w s" and "1 \<le> concurrency w" and "ch_closed s" and "ctx_err s = None"
  shows "start_pc (pool_run w (drain (nat (concurrency w)) (length (ch s))) s) = StartReturned
       \<and> ch (pool_run w (drain (nat (concurrency w)) (length (ch s))) s) = []
       \<and> handled (pool_run w (drain (nat (concurrency w)) (length (ch s))) s)
           = handled s @ map (Pair 0) (ch s)"
proof -
  let ?n = "nat (concurrency w)"
  let ?m = "length (ch s)"
  let ?s1 = "pool_run w (replicate (Suc ?n) StartRun) s"
  let ?s2 = "handler_ends w 0 ?s1"
  let ?s3 = "pool_run w (concat (replicate ?m [Receive 0, HandlerEnds 0])) ?s2"
  let ?s4 = "pool_run w (leave Receive ?n) ?s3"
  let ?s5 = "pool_run w [StartRun] ?s4"
  have run: "pool_run w (drain ?n ?m) s = ?s5"
    by (simp add: drain_def pool_run_append pool_step_def)
  have inv1: "pool_inv w ?s1" using assms(1) by (rule pool_inv_run)
  have pc1: "start_pc ?s1 = Waiting \<or> start_pc ?s1 = StartReturned" by (rule spawned)
  have f1: "ctx_err ?s1 = None" "ch ?s1 = ch s" "ch_closed ?s1" "handled ?s1 = handled s"
    using assms(3,4) spawn_run [of w "Suc ?n" s] by simp_all
  have len1: "length (workers ?s1) = ?n" using inv1 pc1 by (rule settled_length)
  with assms(2) have pos1: "0 < length (workers ?s1)" by simp
  have inv2: "pool_inv w ?s2" using inv1 by (rule pool_inv_handler_ends)
  have f2: "0 < length (workers ?s2)" "ctx_err ?s2 = None" "ch ?s2 = ch s" "ch_closed ?s2"
    "handled ?s2 = handled s" "start_pc ?s2 = start_pc ?s1" "length (workers ?s2) = ?n"
    using pos1 by (simp_all only: handler_ends_frame f1 len1)
  have idle2: "\<forall>v. workers ?s2 ! 0 \<noteq> Handling v"
    by (intro allI) (rule handler_ends_idle [OF pos1])
  have m2: "length (ch ?s2) = ?m" using f2(3) by simp
  from drain_pairs [OF inv2 f2(1) idle2 f2(2) f2(4) m2] f2
  have inv3: "pool_inv w ?s3" and f3: "ch ?s3 = []" "ch_closed ?s3" "start_pc ?s3 = start_pc ?s1"
    "length (workers ?s3) = ?n" "handled ?s3 = handled s @ map (Pair 0) (ch s)"
    by simp_all
  from leave_Receive [OF f3(1) f3(2), of ?n w] f3
  have all: "\<forall>i<length (workers ?s4). workers ?s4 ! i = Exited"
    and f4: "ch ?s4 = []" "start_pc ?s4 = start_pc ?s1" "handled ?s4 = handled s @ map (Pair 0) (ch s)"
    by simp_all
  have inv4: "pool_inv w ?s4" using inv3 by (rule pool_inv_run)
  from pc1 f4(2) have "start_pc ?s4 = Waiting \<or> start_pc ?s4 = StartReturned" by simp
  from returns_when_all_left [OF inv4 this all] f4 show ?thesis
    unfolding run by (simp add: pool_step_def start_thread_frame)
qed

lemma Start_append: "Start w ctx buf cl (es1 @ es2) = pool_run w es2 (Start w ctx buf cl es1)"
  by (simp add: Start_def pool_run_append)
text \<open>
  C7. \<^verbatim>\<open>NewStreamWorker\<close> makes the number of workers at least 1 (1 for \<open>n \<le> 0\<close>, else
  \<open>n\<close>). On every schedule:
  \<^item> when \<^verbatim>\<open>Start\<close> has returned, it had spawned exactly that many workers, every one of
    them has returned, and the context is done or the channel is closed and empty;
  \<^item> from every state in which the context is done, \<^verbatim>\<open>Start\<close> returns once its thread
    has spawned what was left to spawn and each worker has ended the handler call it
    was in and taken \<^verbatim>\<open>ctx.Done()\<close>;
  \<^item> from every state in which the channel is closed and the context is not done,
    \<^verbatim>\<open>Start\<close> returns once the values left in the channel have been received and
    handled and each worker has found the channel closed and empty; by then every one
    of those values has been handed to the handler;
  \<^item> a handler call that ends, with a panic, an error or \<^verbatim>\<open>nil\<close>, puts its worker back at
    the \<^verbatim>\<open>select\<close> and changes nothing else but \<^verbatim>\<open>printed\<close>; and \<^verbatim>\<open>Start\<close> with any
    handler goes through the same states, up to \<^verbatim>\<open>printed\<close>, as with the handler that
    always returns \<^verbatim>\<open>nil\<close>.
\<close>

theorem C7_worker_pool:
  "1 \<le> concurrency (NewStreamWorker n f)
   \<and> (n \<le> 0 \<longrightarrow> concurrency (NewStreamWorker n f) = 1)
   \<and> (0 < n \<longrightarrow> concurrency (NewStreamWorker n f) = n)
   \<and> (start_pc (Start (NewStreamWorker n f) ctx buf cl sched) = StartReturned \<longrightarrow>
        int (length (workers (Start (NewStreamWorker n f) ctx buf cl sched))) = concurrency (NewStreamWorker n f)
        \<and> (\<forall>p \<in> set (workers (Start (NewStreamWorker n f) ctx buf cl sched)). p = Exited)
        \<and> (ctx_err (Start (NewStreamWorker n f) ctx buf cl sched) \<noteq> None
           \<or> (ch_closed (Start (NewStreamWorker n f) ctx buf cl sched)
               \<and> ch (Start (NewStreamWorker n f) ctx buf cl sched) = [])))
   \<and> (ctx_err (Start (NewStreamWorker n f) ctx buf cl es1) \<noteq> None \<longrightarrow>
        start_pc (Start (NewStreamWorker n f) ctx buf cl
                    (es1 @ shutdown (nat (concurrency (NewStreamWorker n f))))) = StartReturned)
   \<and> (ch_closed (Start (NewStreamWorker n f) ctx buf cl es2)
        \<and> ctx_err (Start (NewStreamWorker n f) ctx buf cl es2) = None \<longrightarrow>
        start_pc (Start (NewStreamWorker n f) ctx buf cl
                    (es2 @ drain (nat (concurrency (NewStreamWorker n f)))
                             (length (ch (Start (NewStreamWorker n f) ctx buf cl es2))))) = StartReturned
        \<and> ch (Start (NewStreamWorker n f) ctx buf cl
                    (es2 @ drain (nat (concurrency (NewStreamWorker n f)))
                             (length (ch (Start (NewStreamWorker n f) ctx buf cl es2))))) = []
        \<and> handled (Start (NewStreamWorker n f) ctx buf cl
                    (es2 @ drain (nat (concurrency (NewStreamWorker n f)))
                             (length (ch (Start (NewStreamWorker n f) ctx buf cl es2)))))
            = handled (Start (NewStreamWorker n f) ctx buf cl es2)
              @ map (Pair 0) (ch (Start (NewStreamWorker n f) ctx buf cl es2)))
   \<and> (k < length (workers s) \<and> workers s ! k = Handling v \<longrightarrow>
        handler_ends w k s
          = s\<lparr>printed := printed s @ (case handler w (ctx_err s) v of Panic r \<Rightarrow> [(k, r)] | Return _ \<Rightarrow> []),
               workers := (workers s)[k := Select]\<rparr>)
   \<and> Start (NewStreamWorker n (\<lambda>_ _. Return None)) ctx buf cl sched
        = (Start (NewStreamWorker n f) ctx buf cl sched)\<lparr>printed := []\<rparr>"
proof -
  let ?w = "NewStreamWorker n f"
  have c: "1 \<le> concurrency ?w"
    by (simp add: NewStreamWorker_def)
  then have c0: "0 \<le> concurrency ?w" by simp
  have he: "k < length (workers s) \<and> workers s ! k = Handling v \<longrightarrow>
        handler_ends w k s
          = s\<lparr>printed := printed s @ (case handler w (ctx_err s) v of Panic r \<Rightarrow> [(k, r)] | Return _ \<Rightarrow> []),
               workers := (workers s)[k := Select]\<rparr>"
    by (simp add: handler_ends_def split: handler_result.splits)
  have p1: "ctx_err (Start ?w ctx buf cl es1) \<noteq> None \<longrightarrow>
        start_pc (Start ?w ctx buf cl (es1 @ shutdown (nat (concurrency ?w)))) = StartReturned"
    using shutdown_returns [OF pool_inv_Start [OF c0, of ctx buf cl es1]]
    by (simp add: Start_append)
  have p2: "ch_closed (Start ?w ctx buf cl es2) \<and> ctx_err (Start ?w ctx buf cl es2) = None \<longrightarrow>
        start_pc (Start ?w ctx buf cl (es2 @ drain (nat (concurrency ?w)) (length (ch (Start ?w ctx buf cl es2)))))
          = StartReturned
        \<and> ch (Start ?w ctx buf cl (es2 @ drain (nat (concurrency ?w)) (length (ch (Start ?w ctx buf cl es2))))) = []
        \<and> handled (Start ?w ctx buf cl (es2 @ drain (nat (concurrency ?w)) (length (ch (Start ?w ctx buf cl es2)))))
            = handled (Start ?w ctx buf cl es2) @ map (Pair 0) (ch (Start ?w ctx buf cl es2))"
    using drain_returns [OF pool_inv_Start [OF c0, of ctx buf cl es2] c]
    by (simp add: Start_append)
  have co: "(n \<le> 0 \<longrightarrow> concurrency ?w = 1) \<and> (0 < n \<longrightarrow> concurrency ?w = n)"
    by (simp add: NewStreamWorker_def)
  from c co Start_returned [OF c, of ctx buf cl sched] p1 p2 he Start_silent [of n ctx buf cl sched f]
  show ?thesis
    by blast
qed

lemmas pool_eval = Start_def pool_init_def pool_step_def start_thread_def receive_def ctx_done_def
  handler_ends_def worker_exit_def NewStreamWorker_def

text \<open>
  C7 at two workers and three values of which one makes the handler panic and one makes
  it fail: all three are handled, and \<^verbatim>\<open>Start\<close> returns after the channel is closed and
  both workers have returned. Cancelled while worker 0 is in a handler call and worker 1
  is not yet spawned, \<^verbatim>\<open>Start\<close> returns with two values left in the channel. Closed with
  one value left and both workers in handler calls, it returns after that value is
  handled.
\<close>

theorem C7_worker_pool_witness:
  "(0::int) \<le> 0 \<and> concurrency (NewStreamWorker 0 (\<lambda>_ (v::nat). Return None)) = 1
   \<and> (0::int) < 2
   \<and> start_pc (Start (NewStreamWorker 2
         (\<lambda>_ v. if v = 2 then Panic ''boom'' else if v = 3 then Return (Some (ErrorString ''bad'')) else Return None))
         None [1, 2, 3 :: nat] False
         [StartRun, StartRun, StartRun, Receive 0, Receive 1, HandlerEnds 1, Receive 1, HandlerEnds 1,
          HandlerEnds 0, StartRun, Close, Receive 0, Receive 1, StartRun]) = StartReturned
   \<and> Start (NewStreamWorker 2
         (\<lambda>_ v. if v = 2 then Panic ''boom'' else if v = 3 then Return (Some (ErrorString ''bad'')) else Return None))
         None [1, 2, 3 :: nat] False
         [StartRun, StartRun, StartRun, Receive 0, Receive 1, HandlerEnds 1, Receive 1, HandlerEnds 1,
          HandlerEnds 0, StartRun, Close, Receive 0, Receive 1, StartRun]
       = \<lparr>start_pc = StartReturned, ctx_err = None, ch = [], ch_closed = True,
          workers = [Exited, Exited], wg = 0, printed = [(1, ''boom'')],
          handled = [(0, 1), (1, 2), (1, 3)]\<rparr>
   \<and> Start (NewStreamWorker 2 (\<lambda>_ _. Return None)) None [1, 2, 3 :: nat] False
         [StartRun, StartRun, StartRun, Receive 0, Receive 1, HandlerEnds 1, Receive 1, HandlerEnds 1,
          HandlerEnds 0, StartRun, Close, Receive 0, Receive 1, StartRun]
       = \<lparr>start_pc = StartReturned, ctx_err = None, ch = [], ch_closed = True,
          workers = [Exited, Exited], wg = 0, printed = [],
          handled = [(0, 1), (1, 2), (1, 3)]\<rparr>
   \<and> handler_ends (NewStreamWorker 2
         (\<lambda>_ v. if v = 2 then Panic ''boom'' else if v = 3 then Return (Some (ErrorString ''bad'')) else Return None)) 1
        (Start (NewStreamWorker 2
           (\<lambda>_ v. if v = 2 then Panic ''boom'' else if v = 3 then Return (Some (ErrorString ''bad'')) else Return None))
           None [1, 2, 3 :: nat] False [StartRun, StartRun, StartRun, Receive 0, Receive 1])
       = \<lparr>start_pc = Waiting, ctx_err = None, ch = [3], ch_closed = False,
          workers = [Handling 1, Select], wg = 2, printed = [(1, ''boom'')],
          handled = [(0, 1), (1, 2)]\<rparr>
   \<and> Start (NewStreamWorker 2
         (\<lambda>_ v. if v = 2 then Panic ''boom'' else if v = 3 then Return (Some (ErrorString ''bad'')) else Return None))
         None [1, 2, 3 :: nat] False [StartRun, Receive 0, CancelCtx Canceled]
       = \<lparr>start_pc = Spawning 1, ctx_err = Some Canceled, ch = [2, 3], ch_closed = False,
          workers = [Handling 1], wg = 1, printed = [], handled = [(0, 1)]\<rparr>
   \<and> start_pc (Start (NewStreamWorker 2
         (\<lambda>_ v. if v = 2 then Panic ''boom'' else if v = 3 then Return (Some (ErrorString ''bad'')) else Return None))
         None [1, 2, 3 :: nat] False
         ([StartRun, Receive 0, CancelCtx Canceled] @ shutdown (nat (concurrency (NewStreamWorker 2
         (\<lambda>_ (v::nat). if v = 2 then Panic ''boom'' else if v = 3 then Return (Some (ErrorString ''bad'')) else Return None))))))
       = StartReturned
   \<and> Start (NewStreamWorker 2
         (\<lambda>_ v. if v = 2 then Panic ''boom'' else if v = 3 then Return (Some (ErrorString ''bad'')) else Return None))
         None [1, 2, 3 :: nat] False [StartRun, StartRun, StartRun, Receive 0, Receive 1, Close]
       = \<lparr>start_pc = Waiting, ctx_err = None, ch = [3], ch_closed = True,
          workers = [Handling 1, Handling 2], wg = 2, printed = [], handled = [(0, 1), (1, 2)]\<rparr>
   \<and> start_pc (Start (NewStreamWorker 2
         (\<lambda>_ v. if v = 2 then Panic ''boom'' else if v = 3 then Return (Some (ErrorString ''bad'')) else Return None))
         None [1, 2, 3 :: nat] False
         ([StartRun, StartRun, StartRun, Receive 0, Receive 1, Close]
          @ drain (nat (concurrency (NewStreamWorker 2
         (\<lambda>_ (v::nat). if v = 2 then Panic ''boom'' else if v = 3 then Return (Some (ErrorString ''bad'')) else Return None))))
              (length [3 :: nat])))
       = StartReturned
   \<and> handled (Start (NewStreamWorker 2
         (\<lambda>_ v. if v = 2 then Panic ''boom'' else if v = 3 then Return (Some (ErrorString ''bad'')) else Return None))
         None [1, 2, 3 :: nat] False
         ([StartRun, StartRun, StartRun, Receive 0, Receive 1, Close]
          @ drain (nat (concurrency (NewStreamWorker 2
         (\<lambda>_ (v::nat). if v = 2 then Panic ''boom'' else if v = 3 then Return (Some (ErrorString ''bad'')) else Return None))))
              (length [3 :: nat])))
       = [(0, 1), (1, 2), (0, 3)]"
proof -
  let ?f = "\<lambda>(_ :: error option) (v :: nat). if v = 2 then Panic ''boom''
              else if v = 3 then Return (Some (ErrorString ''bad'')) else Return None"
  let ?es = "[StartRun, StartRun, StartRun, Receive 0, Receive 1, HandlerEnds 1, Receive 1, HandlerEnds 1,
          HandlerEnds 0, StartRun, Close, Receive 0, Receive 1, StartRun]"
  have s: "Start (NewStreamWorker 2 ?f) None [1, 2, 3 :: nat] False ?es
       = \<lparr>start_pc = StartReturned, ctx_err = None, ch = [], ch_closed = True,
          workers = [Exited, Exited], wg = 0, printed = [(1, ''boom'')],
          handled = [(0, 1), (1, 2), (1, 3)]\<rparr>"
    by (simp add: pool_eval)
  have s0: "Start (NewStreamWorker 2 ?f) None [1, 2, 3 :: nat] False [StartRun, StartRun, StartRun, Receive 0, Receive 1]
       = \<lparr>start_pc = Waiting, ctx_err = None, ch = [3], ch_closed = False,
          workers = [Handling 1, Handling 2], wg = 2, printed = [],
          handled = [(0, 1), (1, 2)]\<rparr>"
    by (simp add: pool_eval)
  have c: "Start (NewStreamWorker 2 ?f) None [1, 2, 3 :: nat] False [StartRun, Receive 0, CancelCtx Canceled]
       = \<lparr>start_pc = Spawning 1, ctx_err = Some Canceled, ch = [2, 3], ch_closed = False,
          workers = [Handling 1], wg = 1, printed = [], handled = [(0, 1)]\<rparr>"
    by (simp add: pool_eval)
  have d: "Start (NewStreamWorker 2 ?f) None [1, 2, 3 :: nat] False
         [StartRun, StartRun, StartRun, Receive 0, Receive 1, Close]
       = \<lparr>start_pc = Waiting, ctx_err = None, ch = [3], ch_closed = True,
          workers = [Handling 1, Handling 2], wg = 2, printed = [], handled = [(0, 1), (1, 2)]\<rparr>"
    by (simp add: pool_eval)
  note t0 = C7_worker_pool [where n = 0 and f = "\<lambda>_ (v::nat). Return None" and ctx = None and buf = "[]"
        and cl = False and sched = "[]" and k = 1 and v = 2 and w = "NewStreamWorker 2 ?f"
        and ?es1.0 = "[]" and ?es2.0 = "[]"
        and s = "Start (NewStreamWorker 2 ?f) None [1, 2, 3 :: nat] False [StartRun, StartRun, StartRun, Receive 0, Receive 1]"]
  note t2 = C7_worker_pool [where n = 2 and f = ?f and ctx = None and buf = "[1, 2, 3]" and cl = False
        and sched = ?es and k = 1 and v = 2 and w = "NewStreamWorker 2 ?f"
        and ?es1.0 = "[StartRun, Receive 0, CancelCtx Canceled]"
        and ?es2.0 = "[StartRun, StartRun, StartRun, Receive 0, Receive 1, Close]"
        and s = "Start (NewStreamWorker 2 ?f) None [1, 2, 3 :: nat] False [StartRun, StartRun, StartRun, Receive 0, Receive 1]"]
  have one: "concurrency (NewStreamWorker 0 (\<lambda>_ (v::nat). Return None)) = 1"
    using t0 [THEN conjunct2, THEN conjunct1] by simp
  have cancelled: "ctx_err (Start (NewStreamWorker 2 ?f) None [1, 2, 3 :: nat] False
      [StartRun, Receive 0, CancelCtx Canceled]) \<noteq> None"
    unfolding c by simp
  have p1: "start_pc (Start (NewStreamWorker 2 ?f) None [1, 2, 3 :: nat] False
      ([StartRun, Receive 0, CancelCtx Canceled] @ shutdown (nat (concurrency (NewStreamWorker 2 ?f)))))
      = StartReturned"
    using t2 [THEN conjunct2, THEN conjunct2, THEN conjunct2, THEN conjunct2, THEN conjunct1] cancelled
    by (rule mp)
  have closed: "ch_closed (Start (NewStreamWorker 2 ?f) None [1, 2, 3 :: nat] False
        [StartRun, StartRun, StartRun, Receive 0, Receive 1, Close])
      \<and> ctx_err (Start (NewStreamWorker 2 ?f) None [1, 2, 3 :: nat] False
        [StartRun, StartRun, StartRun, Receive 0, Receive 1, Close]) = None"
    unfolding d by simp
  note p2 = mp [OF t2 [THEN conjunct2, THEN conjunct2, THEN conjunct2, THEN conjunct2, THEN conjunct2,
        THEN conjunct1] closed]
  have handling: "1 < length (workers (Start (NewStreamWorker 2 ?f) None [1, 2, 3 :: nat] False
        [StartRun, StartRun, StartRun, Receive 0, Receive 1]))
      \<and> workers (Start (NewStreamWorker 2 ?f) None [1, 2, 3 :: nat] False
        [StartRun, StartRun, StartRun, Receive 0, Receive 1]) ! 1 = Handling 2"
    unfolding s0 by simp
  note he = mp [OF t2 [THEN conjunct2, THEN conjunct2, THEN conjunct2, THEN conjunct2, THEN conjunct2,
        THEN conjunct2, THEN conjunct1] handling]
  note silent = t2 [THEN conjunct2, THEN conjunct2, THEN conjunct2, THEN conjunct2, THEN conjunct2,
        THEN conjunct2, THEN conjunct2]
  have w: "handler (NewStreamWorker 2 ?f) None 2 = Panic ''boom''"
    by (simp add: NewStreamWorker_def)
  show ?thesis
    using one p1 p2 he silent s s0 c d
    unfolding s s0 c d by (simp add: w)
qed

end
